theory Spec2Isabelle
  imports Main "HOL-Library.Word"
begin

section \<open>JavaScript strings\<close>

text \<open>
  A JavaScript string is a sequence of UTF-16 code units; \<open>length\<close> of the list is the
  string's \<open>.length\<close>, and list positions are the indices that \<open>RegExp.exec\<close> reports.
\<close>

type_synonym jschar = "16 word"
type_synonym jsstring = "jschar list"

definition lit :: "string \<Rightarrow> jsstring" where
  "lit s = map of_char s"

text \<open>ECMAScript \<open>LineTerminator\<close>: LF, CR, LS, PS. The regular expression atom \<open>.\<close>
  matches every code unit but these.\<close>

definition is_line_terminator :: "jschar \<Rightarrow> bool" where
  "is_line_terminator c \<longleftrightarrow> c = 0x0A \<or> c = 0x0D \<or> c = 0x2028 \<or> c = 0x2029"

text \<open>The class \<open>\s\<close>, which is also what \<open>String.prototype.trim\<close> strips:
  \<open>WhiteSpace\<close> and \<open>LineTerminator\<close>.\<close>

definition is_whitespace :: "jschar \<Rightarrow> bool" where
  "is_whitespace c \<longleftrightarrow>
     c = 0x09 \<or> c = 0x0A \<or> c = 0x0B \<or> c = 0x0C \<or> c = 0x0D \<or> c = 0x20 \<or> c = 0xA0 \<or>
     c = 0x1680 \<or> (0x2000 \<le> c \<and> c \<le> 0x200A) \<or> c = 0x2028 \<or> c = 0x2029 \<or>
     c = 0x202F \<or> c = 0x205F \<or> c = 0x3000 \<or> c = 0xFEFF"

definition trim :: "jsstring \<Rightarrow> jsstring" where
  "trim s = rev (dropWhile is_whitespace (rev (dropWhile is_whitespace s)))"

section \<open>The three regular expressions of the fallback extractor\<close>

text \<open>A literal piece of a pattern, matched at the start of \<open>s\<close>: the rest of the input
  after it, or \<open>None\<close>.\<close>

definition match_literal :: "jsstring \<Rightarrow> jsstring \<Rightarrow> jsstring option" where
  "match_literal p s = (if take (length p) s = p then Some (drop (length p) s) else None)"

text \<open>
  The lazy group \<open>(.+?)\<close> followed by the rest of the pattern \<open>k\<close>, with the backtracking
  of a JavaScript regular expression: take one code unit that is not a line terminator,
  try the rest of the pattern, and only when that fails take one more.
  The result is the captured group and what \<open>k\<close> returns.
\<close>

fun lazy_dot_plus :: "(jsstring \<Rightarrow> 'a option) \<Rightarrow> jsstring \<Rightarrow> (jsstring \<times> 'a) option" where
  "lazy_dot_plus k [] = None"
| "lazy_dot_plus k (c # cs) =
     (if is_line_terminator c then None
      else (case k cs of
              Some r \<Rightarrow> Some ([c], r)
            | None \<Rightarrow> (case lazy_dot_plus k cs of
                         Some (x, r) \<Rightarrow> Some (c # x, r)
                       | None \<Rightarrow> None)))"

text \<open>
  Each pattern, anchored at the start of \<open>s\<close>, gives the matched text (\<open>match[0]\<close>)
  and its capture groups. \<open>addedPattern\<close> is \<open>/\[Added: (.+?)\]/\<close>.
\<close>

definition addedPattern :: "jsstring \<Rightarrow> (jsstring \<times> jsstring) option" where
  "addedPattern s =
     (case match_literal (lit ''[Added: '') s of
        None \<Rightarrow> None
      | Some r \<Rightarrow>
          (case lazy_dot_plus (match_literal (lit '']'')) r of
             None \<Rightarrow> None
           | Some (x, rest) \<Rightarrow> Some (lit ''[Added: '' @ x @ lit '']'', x)))"

text \<open>\<open>/\[Deleted: (.+?)\]/\<close>.\<close>

definition deletedPattern :: "jsstring \<Rightarrow> (jsstring \<times> jsstring) option" where
  "deletedPattern s =
     (case match_literal (lit ''[Deleted: '') s of
        None \<Rightarrow> None
      | Some r \<Rightarrow>
          (case lazy_dot_plus (match_literal (lit '']'')) r of
             None \<Rightarrow> None
           | Some (x, rest) \<Rightarrow> Some (lit ''[Deleted: '' @ x @ lit '']'', x)))"

text \<open>\<open>/\[Modified: (.+?) -> (.+?)\]/\<close>, with both groups.\<close>

definition modifiedPattern :: "jsstring \<Rightarrow> (jsstring \<times> jsstring \<times> jsstring) option" where
  "modifiedPattern s =
     (case match_literal (lit ''[Modified: '') s of
        None \<Rightarrow> None
      | Some r \<Rightarrow>
          (case lazy_dot_plus
                  (\<lambda>r1. case match_literal (lit '' -> '') r1 of
                           None \<Rightarrow> None
                         | Some r2 \<Rightarrow> lazy_dot_plus (match_literal (lit '']'')) r2) r of
             None \<Rightarrow> None
           | Some (x, (y, rest)) \<Rightarrow>
               Some (lit ''[Modified: '' @ x @ lit '' -> '' @ y @ lit '']'', (x, y))))"

text \<open>
  The result of \<open>exec\<close>: \<open>m_index\<close> is \<open>match.index\<close>, \<open>m_0\<close> is \<open>match[0]\<close>
  and \<open>m_groups\<close> holds the capture groups (\<open>match[1]\<close>, \<open>match[2]\<close>).
\<close>

record 'g regmatch =
  m_index :: nat
  m_0 :: jsstring
  m_groups :: 'g

text \<open>
  \<open>pattern.exec(content)\<close> of a global (\<open>/g\<close>) pattern whose \<open>lastIndex\<close> is the third
  argument: the match at the first position from \<open>lastIndex\<close> on (up to the end of the
  string) where the pattern matches, or \<open>None\<close> for \<open>null\<close>.
\<close>

definition exec :: "(jsstring \<Rightarrow> (jsstring \<times> 'g) option) \<Rightarrow> jsstring \<Rightarrow> nat \<Rightarrow> 'g regmatch option" where
  "exec p content lastIndex =
     (case List.find (\<lambda>i. p (drop i content) \<noteq> None) [lastIndex ..< Suc (length content)] of
        None \<Rightarrow> None
      | Some i \<Rightarrow>
          (case p (drop i content) of
             None \<Rightarrow> None
           | Some (m0, g) \<Rightarrow> Some \<lparr>m_index = i, m_0 = m0, m_groups = g\<rparr>))"

text \<open>The end of a match, which \<open>exec\<close> stores in \<open>lastIndex\<close> for the next call.\<close>

definition m_end :: "'g regmatch \<Rightarrow> nat" where
  "m_end m = m_index m + length (m_0 m)"

section \<open>The data model\<close>

text \<open>\<open>RedlineChange\<close> and \<open>DocumentMetadata\<close> of \<open>types/redline\<close>. An optional field
  (\<open>originalText?\<close>, \<open>comment?\<close>, ...) is an \<open>option\<close>: \<open>None\<close> when the object literal
  does not set it or sets it to \<open>undefined\<close>.\<close>

datatype change_type = Added | Deleted | Modified | Comment

text \<open>A \<open>Date\<close> object: its time value in milliseconds, or the \<open>Invalid Date\<close> that
  \<open>new Date(s)\<close> gives for a string it cannot parse.\<close>

datatype js_date = DateValue int | InvalidDate

text \<open>
  The identifiers are template strings. \<open>AltId p n\<close> is \<open>`alt-added-${index}`\<close> with \<open>p\<close>
  the text before the counter; \<open>StampedId p t\<close> is \<open>`ins-${Date.now()}-${Math.random()}`\<close>
  with \<open>p\<close> the text before the first dash and \<open>t\<close> the clock (the random number is not
  determined by the input and is left out); \<open>IndexedId p t i\<close> is
  \<open>`ins-${Date.now()}-${index}`\<close> of the DOM variant.
\<close>

datatype change_id = AltId jsstring nat | StampedId jsstring int | IndexedId jsstring int nat

record location =
  start :: nat
  end' :: nat
  paragraph' :: "nat option"

record RedlineChange =
  id' :: change_id
  type :: change_type
  text' :: jsstring
  originalText :: "jsstring option"
  author :: jsstring
  timestamp :: js_date
  location :: location
  comment :: "jsstring option"
  suggestions :: "jsstring list option"
  resolved :: "bool option"

record DocumentMetadata =
  filename :: jsstring
  uploadedAt :: js_date
  lastModified :: js_date
  wordCount :: nat
  changeCount :: nat
  authors :: "jsstring list"

text \<open>
  What the run time supplies: \<open>now\<close> is the clock that \<open>new Date()\<close> and \<open>Date.now()\<close> read
  (one reading stands for all the readings of one extraction), \<open>dateParse\<close> is the
  implementation-defined string parser behind \<open>new Date(s)\<close>, \<open>None\<close> for \<open>NaN\<close>.
\<close>

record runtime =
  now :: int
  dateParse :: "jsstring \<Rightarrow> int option"

definition new_Date :: "runtime \<Rightarrow> js_date" where
  "new_Date rt = DateValue (now rt)"

definition new_Date_of :: "runtime \<Rightarrow> jsstring \<Rightarrow> js_date" where
  "new_Date_of rt s = (case dateParse rt s of Some t \<Rightarrow> DateValue t | None \<Rightarrow> InvalidDate)"

text \<open>\<open>new Date(n)\<close> for an integer number of milliseconds \<open>n\<close>, as \<open>file.lastModified\<close>
  is: \<open>TimeClip\<close> makes it an \<open>Invalid Date\<close> beyond 8.64e15 milliseconds either side of
  the epoch.\<close>

definition new_Date_at :: "int \<Rightarrow> js_date" where
  "new_Date_at n = (if \<bar>n\<bar> \<le> 8640000000000000 then DateValue n else InvalidDate)"

section \<open>The fallback pattern extractor\<close>

text \<open>
  \<open>parseAlternativeTrackChanges\<close> runs three \<open>while ((match = pattern.exec(content)) !== null)\<close>
  loops, one after the other, over the same \<open>changes\<close> array and the same counter \<open>index\<close>.
  Each loop is a function of the pattern's \<open>lastIndex\<close> and of the pair \<open>(changes, index)\<close>.
\<close>

function added_loop ::
  "runtime \<Rightarrow> jsstring \<Rightarrow> nat \<Rightarrow> RedlineChange list \<times> nat \<Rightarrow> RedlineChange list \<times> nat" where
  "added_loop rt content lastIndex (changes, index) =
     (case exec addedPattern content lastIndex of
        None \<Rightarrow> (changes, index)
      | Some m \<Rightarrow>
          added_loop rt content (m_end m)
            (changes @
               [\<lparr>id' = AltId (lit ''alt-added-'') index,
                 type = Added,
                 text' = m_groups m,
                 originalText = None,
                 author = lit ''Document Author'',
                 timestamp = new_Date rt,
                 location = \<lparr>start = m_index m, end' = m_index m + length (m_0 m), paragraph' = None\<rparr>,
                 comment = Some (lit ''Added content detected''),
                 suggestions = None,
                 resolved = None\<rparr>],
             Suc index))"
  by pat_completeness auto
termination
  by (relation "measure (\<lambda>(rt, content, lastIndex, st). Suc (length content) - lastIndex)")
     (auto simp: exec_def m_end_def addedPattern_def find_Some_iff lit_def
           simp del: upt_Suc split: option.splits prod.splits)

function deleted_loop ::
  "runtime \<Rightarrow> jsstring \<Rightarrow> nat \<Rightarrow> RedlineChange list \<times> nat \<Rightarrow> RedlineChange list \<times> nat" where
  "deleted_loop rt content lastIndex (changes, index) =
     (case exec deletedPattern content lastIndex of
        None \<Rightarrow> (changes, index)
      | Some m \<Rightarrow>
          deleted_loop rt content (m_end m)
            (changes @
               [\<lparr>id' = AltId (lit ''alt-deleted-'') index,
                 type = Deleted,
                 text' = [],
                 originalText = Some (m_groups m),
                 author = lit ''Document Author'',
                 timestamp = new_Date rt,
                 location = \<lparr>start = m_index m, end' = m_index m + length (m_0 m), paragraph' = None\<rparr>,
                 comment = Some (lit ''Deleted content detected''),
                 suggestions = None,
                 resolved = None\<rparr>],
             Suc index))"
  by pat_completeness auto
termination
  by (relation "measure (\<lambda>(rt, content, lastIndex, st). Suc (length content) - lastIndex)")
     (auto simp: exec_def m_end_def deletedPattern_def find_Some_iff lit_def
           simp del: upt_Suc split: option.splits prod.splits)

function modified_loop ::
  "runtime \<Rightarrow> jsstring \<Rightarrow> nat \<Rightarrow> RedlineChange list \<times> nat \<Rightarrow> RedlineChange list \<times> nat" where
  "modified_loop rt content lastIndex (changes, index) =
     (case exec modifiedPattern content lastIndex of
        None \<Rightarrow> (changes, index)
      | Some m \<Rightarrow>
          modified_loop rt content (m_end m)
            (changes @
               [\<lparr>id' = AltId (lit ''alt-modified-'') index,
                 type = Modified,
                 text' = snd (m_groups m),
                 originalText = Some (fst (m_groups m)),
                 author = lit ''Document Author'',
                 timestamp = new_Date rt,
                 location = \<lparr>start = m_index m, end' = m_index m + length (m_0 m), paragraph' = None\<rparr>,
                 comment = Some (lit ''Modified content detected''),
                 suggestions = None,
                 resolved = None\<rparr>],
             Suc index))"
  by pat_completeness auto
termination
  by (relation "measure (\<lambda>(rt, content, lastIndex, st). Suc (length content) - lastIndex)")
     (auto simp: exec_def m_end_def modifiedPattern_def find_Some_iff lit_def
           simp del: upt_Suc split: option.splits prod.splits)

definition parseAlternativeTrackChanges :: "runtime \<Rightarrow> jsstring \<Rightarrow> RedlineChange list" where
  "parseAlternativeTrackChanges rt content =
     (let st0 = ([], 0);
          st1 = added_loop rt content 0 st0;
          st2 = deleted_loop rt content 0 st1;
          st3 = modified_loop rt content 0 st2
      in fst st3)"

section \<open>The tree that xml2js builds\<close>

text \<open>
  \<open>parseXMLPromise\<close> resolves with what \<open>xml2js\<close> builds (\<open>explicitArray: false\<close>): an
  element is a string when it holds text only, and otherwise an object; a repeated child
  is an array. In an object, \<open>charkey\<close> is the property \<open>_\<close> (the element's own text),
  \<open>attrkey\<close> is the property \<open>$\<close> (an object from attribute names to attribute values,
  which are strings) and \<open>children\<close> are the other properties, in insertion order.
  xml2js creates \<open>_\<close> first, then \<open>$\<close>, then the children, and that is the order of
  \<open>Object.values\<close>. The names of the children of one object are distinct, since they
  are the keys of a JavaScript object.

  The extractors are modelled on every such tree. Of the options that \<open>parseXMLPromise\<close>
  sets, \<open>mergeAttrs: true\<close> makes xml2js put the attributes among the \<open>children\<close> and
  build no \<open>$\<close> (\<open>attrkey\<close> is \<open>None\<close>), and \<open>explicitRoot: false\<close> makes the result
  the content of the root element, so that the result has a child \<open>w:document\<close> only
  where the root element has one.
\<close>

datatype xmlval =
    XString jsstring
  | XArray "xmlval list"
  | XObject (charkey: "jsstring option") (attrkey: "(jsstring \<times> jsstring) list option")
      (children: "(jsstring \<times> xmlval) list")

text \<open>JavaScript truthiness: the empty string is falsy, objects and arrays are truthy.\<close>

fun truthy :: "xmlval \<Rightarrow> bool" where
  "truthy (XString s) = (s \<noteq> [])"
| "truthy (XArray xs) = True"
| "truthy (XObject ck at ch) = True"

text \<open>\<open>obj[key]\<close> for an element name \<open>key\<close>: \<open>undefined\<close> (\<open>None\<close>) on a string and on
  an array.\<close>

fun js_prop :: "xmlval \<Rightarrow> jsstring \<Rightarrow> xmlval option" where
  "js_prop (XObject ck at ch) key = map_of ch key"
| "js_prop (XArray xs) key = None"
| "js_prop (XString s) key = None"

text \<open>\<open>Array.isArray(v) ? v : [v]\<close>.\<close>

fun as_array :: "xmlval \<Rightarrow> xmlval list" where
  "as_array (XArray es) = es"
| "as_array v = [v]"

text \<open>\<open>element.$?.[name]\<close>.\<close>

fun dollar :: "xmlval \<Rightarrow> jsstring \<Rightarrow> jsstring option" where
  "dollar (XObject ck (Some a) ch) name = map_of a name"
| "dollar (XObject ck None ch) name = None"
| "dollar (XArray xs) name = None"
| "dollar (XString s) name = None"

text \<open>
  The trees that the parser of \<open>parseXMLPromise\<close> can build. With \<open>mergeAttrs: true\<close>
  xml2js assigns every attribute to the element's own object, as a property beside the
  child elements, and creates no \<open>$\<close>; and \<open>$\<close> is not the name of an XML element or
  attribute. So no object of the tree has the property \<open>$\<close>.
\<close>

fun mergeAttrs_tree :: "xmlval \<Rightarrow> bool" where
  "mergeAttrs_tree (XString s) = True"
| "mergeAttrs_tree (XArray xs) = list_all mergeAttrs_tree xs"
| "mergeAttrs_tree (XObject ck at ch) =
     (at = None \<and> list_all (\<lambda>kv. mergeAttrs_tree (snd kv)) ch)"

text \<open>
  \<open>findElementsRecursive(obj, tagName, callback)\<close>: the elements that the callback is
  called with, in the order of the calls. The elements under \<open>obj[tagName]\<close> come first,
  then the recursion over \<open>Object.values(obj)\<close>: the string \<open>_\<close> gives nothing, the
  attribute object \<open>$\<close> gives its value under \<open>tagName\<close> when that is truthy.
\<close>

fun findElementsRecursive :: "xmlval \<Rightarrow> jsstring \<Rightarrow> xmlval list" where
  "findElementsRecursive (XString s) tagName = []"
| "findElementsRecursive (XArray xs) tagName =
     concat (map (\<lambda>v. findElementsRecursive v tagName) xs)"
| "findElementsRecursive (XObject ck at ch) tagName =
     (case map_of ch tagName of
        None \<Rightarrow> []
      | Some v \<Rightarrow> if truthy v then as_array v else [])
     @ (case at of
          None \<Rightarrow> []
        | Some a \<Rightarrow> (case map_of a tagName of
                       None \<Rightarrow> []
                     | Some s \<Rightarrow> if s \<noteq> [] then [XString s] else []))
     @ concat (map (\<lambda>kv. findElementsRecursive (snd kv) tagName) ch)"

text \<open>The body of \<open>textNodes.forEach\<close> in \<open>extractTextFromElement\<close>: what one node
  under \<open>w:t\<close> adds to the text.\<close>

fun text_node :: "xmlval \<Rightarrow> jsstring" where
  "text_node (XString s) = s"
| "text_node (XObject ck at ch) = (case ck of None \<Rightarrow> [] | Some s \<Rightarrow> s)"
| "text_node (XArray xs) = []"

text \<open>\<open>extractTextRecursive\<close> on the attribute object \<open>$\<close>: its value under \<open>w:t\<close> when
  that is truthy, all its values otherwise.\<close>

definition attrs_text :: "(jsstring \<times> jsstring) list \<Rightarrow> jsstring" where
  "attrs_text a =
     (case map_of a (lit ''w:t'') of
        None \<Rightarrow> concat (map snd a)
      | Some s \<Rightarrow> if s \<noteq> [] then s else concat (map snd a))"

text \<open>The local function \<open>extractTextRecursive\<close>: what it appends to \<open>text\<close>.\<close>

fun extractTextRecursive :: "xmlval \<Rightarrow> jsstring" where
  "extractTextRecursive (XString s) = s"
| "extractTextRecursive (XArray xs) = concat (map extractTextRecursive xs)"
| "extractTextRecursive (XObject ck at ch) =
     (if (case map_of ch (lit ''w:t'') of None \<Rightarrow> False | Some v \<Rightarrow> truthy v)
      then (case map_of ch (lit ''w:t'') of
              None \<Rightarrow> []
            | Some v \<Rightarrow> concat (map text_node (as_array v)))
      else (case ck of None \<Rightarrow> [] | Some s \<Rightarrow> s)
           @ (case at of None \<Rightarrow> [] | Some a \<Rightarrow> attrs_text a)
           @ concat (map (\<lambda>kv. extractTextRecursive (snd kv)) ch))"

definition extractTextFromElement :: "xmlval \<Rightarrow> jsstring" where
  "extractTextFromElement element =
     (if \<not> truthy element then [] else trim (extractTextRecursive element))"

section \<open>The structured extractors\<close>

text \<open>\<open>element.$?.['w:author'] || 'Unknown'\<close>.\<close>

definition element_author :: "xmlval \<Rightarrow> jsstring" where
  "element_author element =
     (case dollar element (lit ''w:author'') of
        None \<Rightarrow> lit ''Unknown''
      | Some a \<Rightarrow> if a \<noteq> [] then a else lit ''Unknown'')"

text \<open>\<open>element.$?.['w:date'] ? new Date(element.$['w:date']) : new Date()\<close>.\<close>

definition element_date :: "runtime \<Rightarrow> xmlval \<Rightarrow> js_date" where
  "element_date rt element =
     (case dollar element (lit ''w:date'') of
        None \<Rightarrow> new_Date rt
      | Some d \<Rightarrow> if d \<noteq> [] then new_Date_of rt d else new_Date rt)"

text \<open>The three callbacks: the change that one element pushes, if any.\<close>

definition ins_callback :: "runtime \<Rightarrow> xmlval \<Rightarrow> RedlineChange option" where
  "ins_callback rt element =
     (let text = extractTextFromElement element;
          author = element_author element;
          date = element_date rt element
      in if text \<noteq> []
         then Some \<lparr>id' = StampedId (lit ''ins'') (now rt),
                     type = Added,
                     text' = text,
                     originalText = None,
                     author = author,
                     timestamp = date,
                     location = \<lparr>start = 0, end' = length text, paragraph' = None\<rparr>,
                     comment = None,
                     suggestions = None,
                     resolved = None\<rparr>
         else None)"

definition del_callback :: "runtime \<Rightarrow> xmlval \<Rightarrow> RedlineChange option" where
  "del_callback rt element =
     (let text = extractTextFromElement element;
          author = element_author element;
          date = element_date rt element
      in if text \<noteq> []
         then Some \<lparr>id' = StampedId (lit ''del'') (now rt),
                     type = Deleted,
                     text' = [],
                     originalText = Some text,
                     author = author,
                     timestamp = date,
                     location = \<lparr>start = 0, end' = length text, paragraph' = None\<rparr>,
                     comment = None,
                     suggestions = None,
                     resolved = None\<rparr>
         else None)"

definition comment_callback :: "runtime \<Rightarrow> xmlval \<Rightarrow> RedlineChange option" where
  "comment_callback rt element =
     (let text = extractTextFromElement element;
          author = element_author element;
          date = element_date rt element
      in if text \<noteq> []
         then Some \<lparr>id' = StampedId (lit ''comment'') (now rt),
                     type = Comment,
                     text' = text,
                     originalText = None,
                     author = author,
                     timestamp = date,
                     location = \<lparr>start = 0, end' = 0, paragraph' = None\<rparr>,
                     comment = Some text,
                     suggestions = None,
                     resolved = None\<rparr>
         else None)"

text \<open>
  \<open>extractChangesFromXML(xmlObj, changes)\<close> pushes onto \<open>changes\<close>; the model returns the
  array after the call. \<open>xmlObj\<close> is \<open>None\<close> when the parser gave \<open>null\<close>.
\<close>

definition extractChangesFromXML ::
  "runtime \<Rightarrow> xmlval option \<Rightarrow> RedlineChange list \<Rightarrow> RedlineChange list" where
  "extractChangesFromXML rt xmlObj changes =
     (case (case xmlObj of None \<Rightarrow> None | Some x \<Rightarrow> js_prop x (lit ''w:document'')) of
        None \<Rightarrow> changes
      | Some document \<Rightarrow>
          if \<not> truthy document then changes
          else changes
               @ List.map_filter (ins_callback rt) (findElementsRecursive document (lit ''w:ins''))
               @ List.map_filter (del_callback rt) (findElementsRecursive document (lit ''w:del'')))"

definition extractCommentsFromXML ::
  "runtime \<Rightarrow> xmlval option \<Rightarrow> RedlineChange list \<Rightarrow> RedlineChange list" where
  "extractCommentsFromXML rt xmlObj changes =
     (case (case xmlObj of
              None \<Rightarrow> None
            | Some x \<Rightarrow> (case js_prop x (lit ''w:comments'') of
                          None \<Rightarrow> None
                        | Some cs \<Rightarrow> js_prop cs (lit ''w:comment''))) of
        None \<Rightarrow> changes
      | Some comments \<Rightarrow>
          if \<not> truthy comments then changes
          else changes @ List.map_filter (comment_callback rt) (as_array comments))"

section \<open>The DOM-based variant of the structured extractor\<close>

text \<open>
  The repository holds a second version of the parser module, which parses the XML with
  the browser's \<open>DOMParser\<close> and queries the document with CSS selectors. Its orchestrator
  and its fallback extractor are the ones above; its \<open>extractChangesFromXML\<close> and
  \<open>extractTextFromElement\<close> are modelled here, with the suffix \<open>_dom\<close>.

  A node is a text node or an element. In an XML document \<open>tagName\<close> is the qualified
  name, \<open>getAttribute\<close> looks an attribute up by its qualified name, and a CSS type
  selector (\<open>ins\<close>) matches an element by its local name, whatever its prefix.
\<close>

datatype dnode =
    DText jsstring
  | DElement (el_prefix: "jsstring option") (localName: jsstring)
      (attributes: "(jsstring \<times> jsstring) list") (childNodes: "dnode list")

definition tagName :: "dnode \<Rightarrow> jsstring" where
  "tagName e = (case el_prefix e of None \<Rightarrow> localName e | Some p \<Rightarrow> p @ lit '':'' @ localName e)"

definition getAttribute :: "dnode \<Rightarrow> jsstring \<Rightarrow> jsstring option" where
  "getAttribute e name = map_of (attributes e) name"

fun textContent :: "dnode \<Rightarrow> jsstring" where
  "textContent (DText s) = s"
| "textContent (DElement p l a ch) = concat (map textContent ch)"

text \<open>The elements of a subtree in document order, its root first.\<close>

fun elements :: "dnode \<Rightarrow> dnode list" where
  "elements (DText s) = []"
| "elements (DElement p l a ch) = DElement p l a ch # concat (map elements ch)"

text \<open>A selector is \<open>*\<close> or a list of type selectors: \<open>'ins, w\\:ins'\<close> is
  \<open>TypeSelectors [ins, w:ins]\<close>, the second one naming the local name \<open>w:ins\<close>.\<close>

datatype selector = Universal | TypeSelectors "jsstring list"

fun matches :: "selector \<Rightarrow> dnode \<Rightarrow> bool" where
  "matches Universal e = True"
| "matches (TypeSelectors names) e = (localName e \<in> set names)"

text \<open>\<open>xmlDoc.querySelectorAll(sel)\<close> on the document whose root element is \<open>root\<close>, and
  \<open>element.querySelectorAll(sel)\<close>, which leaves the element itself out.\<close>

definition document_querySelectorAll :: "dnode \<Rightarrow> selector \<Rightarrow> dnode list" where
  "document_querySelectorAll root sel = filter (matches sel) (elements root)"

definition element_querySelectorAll :: "dnode \<Rightarrow> selector \<Rightarrow> dnode list" where
  "element_querySelectorAll e sel =
     filter (matches sel) (case e of DText s \<Rightarrow> [] | DElement p l a ch \<Rightarrow> concat (map elements ch))"

text \<open>\<open>s.includes(t)\<close>.\<close>

fun js_includes :: "jsstring \<Rightarrow> jsstring \<Rightarrow> bool" where
  "js_includes [] t = (t = [])"
| "js_includes (c # cs) t = (take (length t) (c # cs) = t \<or> js_includes cs t)"

definition extractTextFromElement_dom :: "dnode \<Rightarrow> jsstring" where
  "extractTextFromElement_dom element =
     trim (foldl (\<lambda>text textEl.
                    let elementText = textContent textEl
                    in if elementText \<noteq> [] \<and> \<not> js_includes text elementText
                       then text @ lit '' '' @ elementText
                       else text)
             (textContent element)
             (element_querySelectorAll element
                (TypeSelectors [lit ''t'', lit ''w:t'', lit ''delText'', lit ''w:delText''])))"

text \<open>\<open>a || b\<close> on attribute values: \<open>null\<close> and the empty string are falsy.\<close>

definition or_else :: "jsstring option \<Rightarrow> jsstring option \<Rightarrow> jsstring option" where
  "or_else a b = (case a of None \<Rightarrow> b | Some x \<Rightarrow> if x \<noteq> [] then Some x else b)"

text \<open>\<open>a || 'Unknown'\<close>.\<close>

definition or_Unknown :: "jsstring option \<Rightarrow> jsstring" where
  "or_Unknown a = (case a of None \<Rightarrow> lit ''Unknown'' | Some x \<Rightarrow> if x \<noteq> [] then x else lit ''Unknown'')"

text \<open>\<open>dateStr ? new Date(dateStr) : new Date()\<close>.\<close>

definition date_of :: "runtime \<Rightarrow> jsstring option \<Rightarrow> js_date" where
  "date_of rt dateStr =
     (case dateStr of None \<Rightarrow> new_Date rt | Some d \<Rightarrow> if d \<noteq> [] then new_Date_of rt d else new_Date rt)"

text \<open>The callbacks of the three \<open>forEach\<close> loops, given the element and its index.\<close>

definition insertion_callback :: "runtime \<Rightarrow> nat \<times> dnode \<Rightarrow> RedlineChange option" where
  "insertion_callback rt ie =
     (let index = fst ie; element = snd ie;
          text = extractTextFromElement_dom element;
          author = or_Unknown (or_else (getAttribute element (lit ''w:author'')) (getAttribute element (lit ''author'')));
          dateStr = or_else (getAttribute element (lit ''w:date'')) (getAttribute element (lit ''date''));
          date = date_of rt dateStr
      in if trim text \<noteq> []
         then Some \<lparr>id' = IndexedId (lit ''ins'') (now rt) index,
                     type = Added,
                     text' = trim text,
                     originalText = None,
                     author = author,
                     timestamp = date,
                     location = \<lparr>start = 0, end' = length text, paragraph' = None\<rparr>,
                     comment = None,
                     suggestions = None,
                     resolved = None\<rparr>
         else None)"

definition deletion_callback :: "runtime \<Rightarrow> nat \<times> dnode \<Rightarrow> RedlineChange option" where
  "deletion_callback rt ie =
     (let index = fst ie; element = snd ie;
          text = extractTextFromElement_dom element;
          author = or_Unknown (or_else (getAttribute element (lit ''w:author'')) (getAttribute element (lit ''author'')));
          dateStr = or_else (getAttribute element (lit ''w:date'')) (getAttribute element (lit ''date''));
          date = date_of rt dateStr
      in if trim text \<noteq> []
         then Some \<lparr>id' = IndexedId (lit ''del'') (now rt) index,
                     type = Deleted,
                     text' = [],
                     originalText = Some (trim text),
                     author = author,
                     timestamp = date,
                     location = \<lparr>start = 0, end' = length text, paragraph' = None\<rparr>,
                     comment = None,
                     suggestions = None,
                     resolved = None\<rparr>
         else None)"

definition prefixed_callback :: "runtime \<Rightarrow> nat \<times> dnode \<Rightarrow> RedlineChange option" where
  "prefixed_callback rt ie =
     (let index = fst ie; element = snd ie
      in if js_includes (tagName element) (lit '':ins'') \<or> js_includes (tagName element) (lit '':del'')
         then
           (let text = extractTextFromElement_dom element;
                author = or_Unknown (getAttribute element (lit ''w:author''));
                dateStr = getAttribute element (lit ''w:date'');
                date = date_of rt dateStr
            in if trim text \<noteq> []
               then (let isInsertion = js_includes (tagName element) (lit '':ins'')
                     in Some \<lparr>id' = IndexedId (if isInsertion then lit ''ins'' else lit ''del'') (now rt) index,
                               type = (if isInsertion then Added else Deleted),
                               text' = (if isInsertion then trim text else []),
                               originalText = (if isInsertion then None else Some (trim text)),
                               author = author,
                               timestamp = date,
                               location = \<lparr>start = 0, end' = length text, paragraph' = None\<rparr>,
                               comment = None,
                               suggestions = None,
                               resolved = None\<rparr>)
               else None)
         else None)"

definition extractChangesFromXML_dom :: "runtime \<Rightarrow> dnode \<Rightarrow> RedlineChange list \<Rightarrow> RedlineChange list" where
  "extractChangesFromXML_dom rt xmlDoc changes =
     (let insertions = document_querySelectorAll xmlDoc (TypeSelectors [lit ''ins'', lit ''w:ins'']);
          deletions = document_querySelectorAll xmlDoc (TypeSelectors [lit ''del'', lit ''w:del'']);
          allElements = document_querySelectorAll xmlDoc Universal
      in changes
         @ List.map_filter (insertion_callback rt) (enumerate 0 insertions)
         @ List.map_filter (deletion_callback rt) (enumerate 0 deletions)
         @ List.map_filter (prefixed_callback rt) (enumerate 0 allElements))"

section \<open>From HTML to plain text, and the metadata\<close>

text \<open>\<open>.replace(/<[^>]*>/g, ' ')\<close>: a \<open><\<close> with a \<open>>\<close> somewhere after it starts a match
  that runs to the first such \<open>>\<close>; any other code unit is kept.\<close>

function strip_tags :: "jsstring \<Rightarrow> jsstring" where
  "strip_tags [] = []"
| "strip_tags (c # cs) =
     (if c = 0x3C \<and> 0x3E \<in> set cs
      then 0x20 # strip_tags (drop 1 (dropWhile (\<lambda>d. d \<noteq> 0x3E) cs))
      else c # strip_tags cs)"
  by pat_completeness auto
termination
  by (relation "measure length")
     (auto simp: less_Suc_eq_le intro: le_trans [OF diff_le_self length_dropWhile_le])

text \<open>\<open>.replace(/\s+/g, ' ')\<close>: every maximal run of white space becomes one space.\<close>

function collapse_whitespace :: "jsstring \<Rightarrow> jsstring" where
  "collapse_whitespace [] = []"
| "collapse_whitespace (c # cs) =
     (if is_whitespace c
      then 0x20 # collapse_whitespace (dropWhile is_whitespace cs)
      else c # collapse_whitespace cs)"
  by pat_completeness auto
termination
  by (relation "measure length") (auto simp: less_Suc_eq_le length_dropWhile_le)

text \<open>\<open>htmlContent.replace(/<[^>]*>/g, ' ').replace(/\s+/g, ' ').trim()\<close>.\<close>

definition html_to_text :: "jsstring \<Rightarrow> jsstring" where
  "html_to_text htmlContent = trim (collapse_whitespace (strip_tags htmlContent))"

text \<open>
  \<open>s.split(/\s+/)\<close>: the pieces between the maximal runs of white space. \<open>cur\<close> is the
  piece being read. The empty string gives the one piece \<open>''\<close>, and a string that starts
  or ends with white space gives an empty first or last piece, as in JavaScript.
\<close>

function split_pieces :: "jsstring \<Rightarrow> jsstring \<Rightarrow> jsstring list" where
  "split_pieces cur [] = [cur]"
| "split_pieces cur (c # cs) =
     (if is_whitespace c
      then cur # split_pieces [] (dropWhile is_whitespace cs)
      else split_pieces (cur @ [c]) cs)"
  by pat_completeness auto
termination
  by (relation "measure (\<lambda>(cur, s). length s)") (auto simp: less_Suc_eq_le length_dropWhile_le)

definition split_whitespace :: "jsstring \<Rightarrow> jsstring list" where
  "split_whitespace s = split_pieces [] s"

text \<open>\<open>[...new Set(xs)]\<close>: a \<open>Set\<close> keeps its elements in insertion order, and adding an
  element that it already holds changes nothing.\<close>

definition Set_add :: "'a list \<Rightarrow> 'a \<Rightarrow> 'a list" where
  "Set_add s x = (if x \<in> set s then s else s @ [x])"

definition new_Set :: "'a list \<Rightarrow> 'a list" where
  "new_Set xs = foldl Set_add [] xs"

section \<open>The orchestrator\<close>

datatype js_error = Error jsstring

text \<open>
  What happens outside the returned value: the messages written to the console and the
  calls of the fallback extractor (with the text it is given).
\<close>

datatype event =
    console_error jsstring
  | console_warn jsstring
  | console_info jsstring
  | fallback_call jsstring

text \<open>What xml2js does with a string: it calls back with a result (\<open>null\<close> is \<open>None\<close>),
  calls back with an error, or throws.\<close>

datatype parse_outcome =
    Parsed "xmlval option"
  | CallbackError js_error
  | ParserThrew js_error

text \<open>
  The uploaded \<open>File\<close> and what the libraries do with it. \<open>convertToHtml k\<close> is the
  outcome of the \<open>k\<close>-th run of
  \<open>mammoth.convertToHtml({ arrayBuffer: await file.arrayBuffer() })\<close> (a failure of
  \<open>arrayBuffer\<close> is a failure of the run), \<open>Inr\<close> holding the \<open>value\<close> of the result.
  \<open>loadAsync\<close> is the outcome of \<open>zip.loadAsync(file)\<close>; the archive maps an entry
  name to \<open>None\<close> when \<open>file(name)\<close> is \<open>null\<close> and to the outcome of
  \<open>async('text')\<close> otherwise. \<open>xml2js\<close> is the parser.
\<close>

record file_env =
  file_name :: jsstring
  file_lastModified :: int
  convertToHtml :: "nat \<Rightarrow> js_error + jsstring"
  loadAsync :: "js_error + (jsstring \<Rightarrow> (js_error + jsstring) option)"
  xml2js :: "jsstring \<Rightarrow> parse_outcome"

record world =
  mammoth_runs :: nat
  trace :: "event list"

definition emit :: "event \<Rightarrow> world \<Rightarrow> world" where
  "emit e w = w\<lparr>trace := trace w @ [e]\<rparr>"

definition mammoth_convertToHtml :: "file_env \<Rightarrow> world \<Rightarrow> (js_error + jsstring) \<times> world" where
  "mammoth_convertToHtml env w =
     (convertToHtml env (mammoth_runs w), w\<lparr>mammoth_runs := Suc (mammoth_runs w)\<rparr>)"

text \<open>\<open>await docxContents.file(name)?.async('text')\<close>: \<open>Inr None\<close> is \<open>undefined\<close>.\<close>

definition entry_text ::
  "(jsstring \<Rightarrow> (js_error + jsstring) option) \<Rightarrow> jsstring \<Rightarrow> js_error + jsstring option" where
  "entry_text docxContents name =
     (case docxContents name of
        None \<Rightarrow> Inr None
      | Some (Inl e) \<Rightarrow> Inl e
      | Some (Inr t) \<Rightarrow> Inr (Some t))"

definition parseXMLPromise :: "file_env \<Rightarrow> jsstring \<Rightarrow> world \<Rightarrow> (js_error + xmlval option) \<times> world" where
  "parseXMLPromise env xml w =
     (case xml2js env xml of
        Parsed result \<Rightarrow> (Inr result, w)
      | CallbackError err \<Rightarrow> (Inl err, emit (console_error (lit ''XML parsing error:'')) w)
      | ParserThrew error \<Rightarrow> (Inl error, emit (console_error (lit ''Parser creation error:'')) w))"

definition getTextContent :: "file_env \<Rightarrow> world \<Rightarrow> jsstring \<times> world" where
  "getTextContent env w =
     (case mammoth_convertToHtml env w of
        (Inr htmlContent, w1) \<Rightarrow> (html_to_text htmlContent, w1)
      | (Inl error, w1) \<Rightarrow> ([], emit (console_warn (lit ''Could not extract text content:'')) w1))"

text \<open>
  The \<open>try\<close> block of \<open>extractTrackChanges\<close>, the structured extraction: \<open>Inl\<close> is the
  error it throws, \<open>Inr\<close> the array \<open>changes\<close> at its end.
\<close>

definition structured_extraction ::
  "file_env \<Rightarrow> runtime \<Rightarrow> world \<Rightarrow> (js_error + RedlineChange list) \<times> world" where
  "structured_extraction env rt w =
     (case loadAsync env of
        Inl e \<Rightarrow> (Inl e, w)
      | Inr docxContents \<Rightarrow>
          (case entry_text docxContents (lit ''word/document.xml'') of
             Inl e \<Rightarrow> (Inl e, w)
           | Inr None \<Rightarrow> (Inl (Error (lit ''Could not find document.xml'')), w)
           | Inr (Some documentXml) \<Rightarrow>
               if documentXml = [] then (Inl (Error (lit ''Could not find document.xml'')), w)
               else
                 (case parseXMLPromise env documentXml w of
                    (Inl e, w1) \<Rightarrow> (Inl e, w1)
                  | (Inr parsedXml, w1) \<Rightarrow>
                      (let changes = extractChangesFromXML rt parsedXml [] in
                       case entry_text docxContents (lit ''word/comments.xml'') of
                         Inl e \<Rightarrow> (Inl e, w1)
                       | Inr commentsXml \<Rightarrow>
                           (case (case commentsXml of
                                    None \<Rightarrow> (Inr changes, w1)
                                  | Some cx \<Rightarrow>
                                      if cx = [] then (Inr changes, w1)
                                      else (case parseXMLPromise env cx w1 of
                                              (Inl e, w2) \<Rightarrow> (Inl e, w2)
                                            | (Inr parsedComments, w2) \<Rightarrow>
                                                (Inr (extractCommentsFromXML rt parsedComments changes), w2))) of
                              (Inl e, w3) \<Rightarrow> (Inl e, w3)
                            | (Inr changes', w3) \<Rightarrow>
                                (Inr changes',
                                 if length changes' = 0
                                 then emit (console_info (lit ''No track changes found in document. Upload a document with track changes enabled.'')) w3
                                 else w3))))))"

definition extractTrackChanges :: "file_env \<Rightarrow> runtime \<Rightarrow> world \<Rightarrow> RedlineChange list \<times> world" where
  "extractTrackChanges env rt w =
     (case structured_extraction env rt w of
        (Inr changes, w1) \<Rightarrow> (changes, w1)
      | (Inl error, w1) \<Rightarrow>
          (let w2 = emit (console_error (lit ''Could not extract track changes from document:'')) w1;
               (textContent, w3) = getTextContent env w2;
               alternativeChanges = parseAlternativeTrackChanges rt textContent;
               w4 = emit (fallback_call textContent) w3
           in if length alternativeChanges > 0 then (alternativeChanges, w4) else ([], w4)))"

record parsed_document =
  content :: jsstring
  changes :: "RedlineChange list"
  metadata :: DocumentMetadata

definition parseDocument :: "file_env \<Rightarrow> runtime \<Rightarrow> world \<Rightarrow> (js_error + parsed_document) \<times> world" where
  "parseDocument env rt w =
     (case mammoth_convertToHtml env w of
        (Inl error, w1) \<Rightarrow>
          (Inl (Error (lit ''Failed to parse document. Please ensure it's a valid .docx file.'')),
           emit (console_error (lit ''Error parsing document:'')) w1)
      | (Inr htmlContent, w1) \<Rightarrow>
          (let textContent = html_to_text htmlContent;
               (changes, w2) = extractTrackChanges env rt w1;
               metadata = \<lparr>filename = file_name env,
                           uploadedAt = new_Date rt,
                           lastModified = new_Date_at (file_lastModified env),
                           wordCount = length (split_whitespace textContent),
                           changeCount = length changes,
                           authors = new_Set (map author changes)\<rparr>
           in (Inr \<lparr>content = textContent, changes = changes, metadata = metadata\<rparr>, w2)))"

text \<open>The world before the call: mammoth has not run and nothing has been written.\<close>

definition world0 :: world where
  "world0 = \<lparr>mammoth_runs = 0, trace = []\<rparr>"

section \<open>Notions of the specification\<close>

text \<open>\<open>content.slice(start, end)\<close> for the location of a change.\<close>

definition span_text :: "jsstring \<Rightarrow> RedlineChange \<Rightarrow> jsstring" where
  "span_text s c = take (end' (location c) - start (location c)) (drop (start (location c)) s)"

text \<open>\<open>literal_span s c m\<close>: the location of \<open>c\<close> is a span of \<open>s\<close> that holds exactly the
  text \<open>m\<close>, so \<open>end = start + m.length\<close>.\<close>

definition literal_span :: "jsstring \<Rightarrow> RedlineChange \<Rightarrow> jsstring \<Rightarrow> bool" where
  "literal_span s c m \<longleftrightarrow>
     end' (location c) = start (location c) + length m \<and> end' (location c) \<le> length s \<and> span_text s c = m"

text \<open>The changes that the fallback extractor builds for the three bracket patterns.\<close>

definition added_ok :: "jsstring \<Rightarrow> RedlineChange \<Rightarrow> bool" where
  "added_ok s c \<longleftrightarrow>
     type c = Added \<and> author c = lit ''Document Author'' \<and> text' c \<noteq> []
     \<and> originalText c = None \<and> comment c = Some (lit ''Added content detected'')
     \<and> suggestions c = None \<and> resolved c = None
     \<and> literal_span s c (lit ''[Added: '' @ text' c @ lit '']'')"

definition deleted_ok :: "jsstring \<Rightarrow> RedlineChange \<Rightarrow> bool" where
  "deleted_ok s c \<longleftrightarrow>
     type c = Deleted \<and> author c = lit ''Document Author'' \<and> text' c = []
     \<and> comment c = Some (lit ''Deleted content detected'')
     \<and> suggestions c = None \<and> resolved c = None
     \<and> (case originalText c of
           None \<Rightarrow> False
         | Some x \<Rightarrow> x \<noteq> [] \<and> literal_span s c (lit ''[Deleted: '' @ x @ lit '']''))"

definition modified_ok :: "jsstring \<Rightarrow> RedlineChange \<Rightarrow> bool" where
  "modified_ok s c \<longleftrightarrow>
     type c = Modified \<and> author c = lit ''Document Author'' \<and> text' c \<noteq> []
     \<and> comment c = Some (lit ''Modified content detected'')
     \<and> suggestions c = None \<and> resolved c = None
     \<and> (case originalText c of
           None \<Rightarrow> False
         | Some x \<Rightarrow> x \<noteq> []
             \<and> literal_span s c (lit ''[Modified: '' @ x @ lit '' -> '' @ text' c @ lit '']''))"

text \<open>Scan order: each change ends before the next one starts.\<close>

definition scan_order :: "RedlineChange list \<Rightarrow> bool" where
  "scan_order cs = sorted_wrt (\<lambda>a b. end' (location a) \<le> start (location b)) cs"

text \<open>The shape invariant of the data model: a \<open>deleted\<close> change has empty \<open>text\<close> and
  non-empty \<open>originalText\<close>; an \<open>added\<close> change has non-empty \<open>text\<close> and no
  \<open>originalText\<close>.\<close>

definition shape_invariant :: "RedlineChange \<Rightarrow> bool" where
  "shape_invariant c \<longleftrightarrow>
     (case type c of
        Deleted \<Rightarrow> text' c = [] \<and> (case originalText c of None \<Rightarrow> False | Some x \<Rightarrow> x \<noteq> [])
      | Added \<Rightarrow> text' c \<noteq> [] \<and> originalText c = None
      | Modified \<Rightarrow> True
      | Comment \<Rightarrow> True)"

text \<open>The white-space-separated tokens of a string: its maximal runs of code units that
  are not white space.\<close>

function whitespace_tokens :: "jsstring \<Rightarrow> jsstring list" where
  "whitespace_tokens [] = []"
| "whitespace_tokens (c # cs) =
     (if is_whitespace c then whitespace_tokens cs
      else (c # takeWhile (\<lambda>d. \<not> is_whitespace d) cs)
           # whitespace_tokens (dropWhile (\<lambda>d. \<not> is_whitespace d) cs))"
  by pat_completeness auto
termination
  by (relation "measure length") (auto simp: less_Suc_eq_le length_dropWhile_le)

text \<open>A list with its duplicates removed, each element kept where it first appears.\<close>

fun first_seen :: "'a list \<Rightarrow> 'a list" where
  "first_seen [] = []"
| "first_seen (x # xs) = x # first_seen (filter (\<lambda>y. y \<noteq> x) xs)"

text \<open>\<open>has_key t k\<close>: somewhere in the tree \<open>t\<close> an object has a child or an attribute
  named \<open>k\<close>.\<close>

fun has_key :: "xmlval \<Rightarrow> jsstring \<Rightarrow> bool" where
  "has_key (XString s) k = False"
| "has_key (XArray xs) k = list_ex (\<lambda>v. has_key v k) xs"
| "has_key (XObject ck at ch) k =
     (k \<in> fst ` set ch
      \<or> (case at of None \<Rightarrow> False | Some a \<Rightarrow> k \<in> fst ` set a)
      \<or> list_ex (\<lambda>kv. has_key (snd kv) k) ch)"

text \<open>The texts that the fallback extractor was called with, in the order of the calls.\<close>

fun fallback_texts :: "event list \<Rightarrow> jsstring list" where
  "fallback_texts [] = []"
| "fallback_texts (fallback_call t # es) = t # fallback_texts es"
| "fallback_texts (console_error m # es) = fallback_texts es"
| "fallback_texts (console_warn m # es) = fallback_texts es"
| "fallback_texts (console_info m # es) = fallback_texts es"

section \<open>Sample inputs\<close>

text \<open>A run time whose clock reads 1000 and whose date parser knows one date string.\<close>

definition sample_runtime :: runtime where
  "sample_runtime =
     \<lparr>now = 1000,
      dateParse = (\<lambda>s. if s = lit ''2024-01-15T10:30:00Z'' then Some 1705314600000 else None)\<rparr>"

text \<open>An object with children only, and an element that holds the text \<open>t\<close> in a run.\<close>

definition obj :: "(string \<times> xmlval) list \<Rightarrow> xmlval" where
  "obj kvs = XObject None None (map (\<lambda>kv. (lit (fst kv), snd kv)) kvs)"

definition run_of :: "string \<Rightarrow> (string \<times> xmlval) list" where
  "run_of t = [(''w:r'', obj [(''w:t'', XString (lit t))])]"

text \<open>
  A document tree with one \<open>w:ins\<close> (author \<open>Bob\<close> and a date that parses, both under
  \<open>$\<close>) and one \<open>w:del\<close> (no attributes).
\<close>

definition sample_ins :: xmlval where
  "sample_ins =
     XObject None (Some [(lit ''w:author'', lit ''Bob''), (lit ''w:date'', lit ''2024-01-15T10:30:00Z'')])
       [(lit ''w:t'', XString (lit ''hello''))]"

definition sample_tree :: xmlval where
  "sample_tree =
     obj [(''w:document'', obj [(''w:body'', obj
       [(''w:ins'', sample_ins), (''w:del'', obj (run_of ''bye''))])])]"

text \<open>
  What the parser of \<open>parseXMLPromise\<close> builds for
  \<open><pkg><w:document><w:body><w:ins w:author="Alice" w:date="2024-01-15T10:30:00Z">
  <w:r><w:t>hello</w:t></w:r></w:ins></w:body></w:document></pkg>\<close>: the content of the root
  element, with the two attributes of the insertion as properties of its object, before
  its child. \<open>merged_plain_tree\<close> is the same document with the insertion written
  \<open><ins author="Alice" date="2024-01-15T10:30:00Z">\<close>.
\<close>

definition merged_ins :: xmlval where
  "merged_ins =
     obj ([(''w:author'', XString (lit ''Alice'')),
           (''w:date'', XString (lit ''2024-01-15T10:30:00Z''))] @ run_of ''hello'')"

definition merged_tree :: xmlval where
  "merged_tree = obj [(''w:document'', obj [(''w:body'', obj [(''w:ins'', merged_ins)])])]"

definition merged_plain_tree :: xmlval where
  "merged_plain_tree =
     obj [(''w:document'', obj [(''w:body'', obj
       [(''ins'', obj ([(''author'', XString (lit ''Alice'')),
                        (''date'', XString (lit ''2024-01-15T10:30:00Z''))] @ run_of ''hello''))])])]"

definition sample_comments :: xmlval where
  "sample_comments = obj [(''w:comments'', obj [(''w:comment'', obj (run_of ''note''))])]"

text \<open>The same for the DOM variant: \<open><w:document><w:ins w:author="Bob">hello</w:ins>
  <ins author="Al" date="yesterday">plain</ins><del>bye</del></w:document>\<close>.\<close>

definition prefixed_ins :: dnode where
  "prefixed_ins =
     DElement (Some (lit ''w'')) (lit ''ins'') [(lit ''w:author'', lit ''Bob'')] [DText (lit ''hello'')]"

definition plain_ins :: dnode where
  "plain_ins =
     DElement None (lit ''ins'') [(lit ''author'', lit ''Al''), (lit ''date'', lit ''yesterday'')]
       [DText (lit ''plain'')]"

definition sample_document :: dnode where
  "sample_document =
     DElement (Some (lit ''w'')) (lit ''document'') []
       [prefixed_ins, plain_ins, DElement None (lit ''del'') [] [DText (lit ''bye'')]]"

text \<open>
  A file whose archive holds \<open>word/document.xml\<close> and \<open>word/comments.xml\<close>, which the
  parser turns into \<open>sample_tree\<close> and \<open>sample_comments\<close>, and whose plain text holds a
  bracketed annotation. Mammoth converts it every time.
\<close>

definition sample_env :: file_env where
  "sample_env =
     \<lparr>file_name = lit ''a.docx'',
      file_lastModified = 5,
      convertToHtml = (\<lambda>k. Inr (lit ''<p>fee [Added: x]</p>'')),
      loadAsync = Inr (\<lambda>name. if name = lit ''word/document.xml'' then Some (Inr (lit ''<d/>''))
                              else if name = lit ''word/comments.xml'' then Some (Inr (lit ''<c/>''))
                              else None),
      xml2js = (\<lambda>xml. if xml = lit ''<d/>'' then Parsed (Some sample_tree)
                       else Parsed (Some sample_comments))\<rparr>"

text \<open>
  Variants of the file: one whose document tree holds no insertion or deletion and that
  has no comments entry; one whose archive cannot be opened and that mammoth converts
  only the first time; one that mammoth converts to no text at all.
\<close>

definition no_changes_env :: file_env where
  "no_changes_env =
     sample_env
       \<lparr>loadAsync := Inr (\<lambda>name. if name = lit ''word/document.xml'' then Some (Inr (lit ''<d/>'')) else None),
        xml2js := (\<lambda>xml. Parsed (Some (obj [(''w:document'', obj (run_of ''fee''))])))\<rparr>"

definition broken_env :: file_env where
  "broken_env =
     sample_env
       \<lparr>convertToHtml := (\<lambda>k. if k = 0 then Inr (lit ''<p>fee [Added: x]</p>'')
                               else Inl (Error (lit ''mammoth failed''))),
        loadAsync := Inl (Error (lit ''not a zip file''))\<rparr>"

definition empty_env :: file_env where
  "empty_env = sample_env \<lparr>convertToHtml := (\<lambda>k. Inr (lit ''<p></p>''))\<rparr>"

section \<open>Facts about the regular expressions\<close>

lemma match_literal_Some: "match_literal p s = Some r \<Longrightarrow> s = p @ r"
  by (auto simp: match_literal_def split: if_splits) (metis append_take_drop_id)

lemma lazy_dot_plus_Some:
  "lazy_dot_plus k s = Some (x, r) \<Longrightarrow>
     x \<noteq> [] \<and> (\<exists>t. s = x @ t \<and> k t = Some r) \<and> (\<forall>c\<in>set x. \<not> is_line_terminator c)"
proof (induction s arbitrary: x r)
  case Nil
  then show ?case by simp
next
  case (Cons c cs)
  show ?case
  proof (cases "k cs")
    case None
    with Cons.prems obtain x' where x': "lazy_dot_plus k cs = Some (x', r)" "x = c # x'" "\<not> is_line_terminator c"
      by (auto split: if_splits option.splits)
    from Cons.IH [OF x'(1)] x'(2,3) show ?thesis by auto
  next
    case (Some r')
    with Cons.prems show ?thesis by (auto split: if_splits)
  qed
qed

lemma addedPattern_Some:
  "addedPattern s = Some (m0, x) \<Longrightarrow>
     m0 = lit ''[Added: '' @ x @ lit '']'' \<and> x \<noteq> [] \<and> (\<exists>t. s = m0 @ t)"
  unfolding addedPattern_def
  by (auto split: option.splits dest!: match_literal_Some lazy_dot_plus_Some)

lemma deletedPattern_Some:
  "deletedPattern s = Some (m0, x) \<Longrightarrow>
     m0 = lit ''[Deleted: '' @ x @ lit '']'' \<and> x \<noteq> [] \<and> (\<exists>t. s = m0 @ t)"
  unfolding deletedPattern_def
  by (auto split: option.splits dest!: match_literal_Some lazy_dot_plus_Some)

lemma modifiedPattern_Some:
  "modifiedPattern s = Some (m0, (x, y)) \<Longrightarrow>
     m0 = lit ''[Modified: '' @ x @ lit '' -> '' @ y @ lit '']'' \<and> x \<noteq> [] \<and> y \<noteq> []
     \<and> (\<exists>t. s = m0 @ t)"
  unfolding modifiedPattern_def
  by (auto split: option.splits dest!: match_literal_Some lazy_dot_plus_Some)

lemma find_upt_Some:
  assumes "List.find P [i..<n] = Some k"
  shows "i \<le> k \<and> k < n \<and> P k \<and> (\<forall>j. i \<le> j \<and> j < k \<longrightarrow> \<not> P j)"
proof -
  from assms obtain a where a: "a < n - i" "P (i + a)" "k = i + a" "\<forall>j<a. \<not> P (i + j)"
    by (auto simp: find_Some_iff)
  have "\<not> P j" if "i \<le> j" "j < k" for j
  proof -
    from that a(3) have "j - i < a" by arith
    with a(4) have "\<not> P (i + (j - i))" by blast
    with that show ?thesis by simp
  qed
  with a show ?thesis by auto
qed

lemma find_upt_None:
  assumes "List.find P [i..<n] = None" "i \<le> j" "j < n"
  shows "\<not> P j"
  using assms by (auto simp: find_None_iff)

lemma exec_Some:
  assumes "exec p s i = Some m"
  shows "i \<le> m_index m" "m_index m \<le> length s"
    "p (drop (m_index m) s) = Some (m_0 m, m_groups m)"
    "\<forall>j. i \<le> j \<and> j < m_index m \<longrightarrow> p (drop j s) = None"
proof -
  from assms obtain k where k: "List.find (\<lambda>i. p (drop i s) \<noteq> None) [i..<Suc (length s)] = Some k"
    and pk: "p (drop k s) = Some (m_0 m, m_groups m)" and mk: "m_index m = k"
    by (auto simp: exec_def simp del: upt_Suc split: option.splits)
  note f = find_upt_Some [OF k]
  from f mk show "i \<le> m_index m" by simp
  from f mk show "m_index m \<le> length s" by simp
  from pk mk show "p (drop (m_index m) s) = Some (m_0 m, m_groups m)" by simp
  from f mk show "\<forall>j. i \<le> j \<and> j < m_index m \<longrightarrow> p (drop j s) = None" by blast
qed

lemma exec_None:
  assumes "exec p s i = None" "i \<le> j" "j \<le> length s"
  shows "p (drop j s) = None"
proof -
  from assms(1) have "List.find (\<lambda>i. p (drop i s) \<noteq> None) [i..<Suc (length s)] = None"
    by (auto simp: exec_def find_Some_iff simp del: upt_Suc split: option.splits)
  from find_upt_None [OF this assms(2)] assms(3) show ?thesis by fastforce
qed

lemma drop_append_length: "i \<le> length s \<Longrightarrow> drop i s = m @ t \<Longrightarrow> i + length m \<le> length s"
proof -
  assume a: "i \<le> length s" "drop i s = m @ t"
  from a(2) have "length (drop i s) = length (m @ t)" by (rule arg_cong)
  with a(1) show ?thesis by simp
qed

section \<open>The three loops of the fallback extractor\<close>

text \<open>
  Each loop appends to \<open>changes\<close> one change per match and counts them in \<open>index\<close>. The
  changes it appends are well formed, lie at or after \<open>lastIndex\<close>, are in scan order,
  and their spans cover every position from \<open>lastIndex\<close> on where the pattern matches.
\<close>

lemma added_loop_spec:
  "\<exists>new. added_loop rt s i (cs, n) = (cs @ new, n + length new)
      \<and> (\<forall>c\<in>set new. added_ok s c \<and> i \<le> start (location c))
      \<and> scan_order new
      \<and> (\<forall>j. i \<le> j \<and> j \<le> length s \<and> addedPattern (drop j s) \<noteq> None
             \<longrightarrow> (\<exists>c\<in>set new. start (location c) \<le> j \<and> j < end' (location c)))"
proof (induction rt s i "(cs, n)" arbitrary: cs n rule: added_loop.induct)
  case (1 rt s i cs n)
  show ?case
  proof (cases "exec addedPattern s i")
    case None
    then have "\<And>j. i \<le> j \<Longrightarrow> j \<le> length s \<Longrightarrow> addedPattern (drop j s) = None"
      by (rule exec_None)
    with None show ?thesis by (intro exI [of _ "[]"]) (auto simp: scan_order_def)
  next
    case (Some m)
    define c where "c = \<lparr>id' = AltId (lit ''alt-added-'') n, type = Added, text' = m_groups m,
                originalText = None, author = lit ''Document Author'', timestamp = new_Date rt,
                location = \<lparr>start = m_index m, end' = m_index m + length (m_0 m), paragraph' = None\<rparr>,
                comment = Some (lit ''Added content detected''), suggestions = None, resolved = None\<rparr>"
    note e = exec_Some [OF Some]
    from addedPattern_Some [OF e(3)] obtain t where
      m0: "m_0 m = lit ''[Added: '' @ m_groups m @ lit '']''" and ne: "m_groups m \<noteq> []"
      and dr: "drop (m_index m) s = m_0 m @ t" by blast
    have len: "m_index m + length (m_0 m) \<le> length s"
      using drop_append_length [OF e(2) dr] .
    have loc: "start (location c) = m_index m" "end' (location c) = m_end m"
      by (simp_all add: c_def m_end_def)
    have c_ok: "added_ok s c"
      using len ne m0 dr by (simp add: added_ok_def literal_span_def span_text_def c_def)
    from "1" [OF Some, folded c_def] obtain new where
      new: "added_loop rt s (m_end m) (cs @ [c], Suc n) = ((cs @ [c]) @ new, Suc n + length new)"
      and props: "\<forall>c\<in>set new. added_ok s c \<and> m_end m \<le> start (location c)"
      and sorted: "scan_order new"
      and cover: "\<forall>j. m_end m \<le> j \<and> j \<le> length s \<and> addedPattern (drop j s) \<noteq> None
             \<longrightarrow> (\<exists>c\<in>set new. start (location c) \<le> j \<and> j < end' (location c))"
      by blast
    have eq: "added_loop rt s i (cs, n) = (cs @ (c # new), n + length (c # new))"
      using Some new by (simp add: c_def)
    have le: "i \<le> m_end m" using e(1) by (simp add: m_end_def)
    have all_ok: "\<forall>c\<in>set (c # new). added_ok s c \<and> i \<le> start (location c)"
      using c_ok props e(1) le loc by auto
    have sorted': "scan_order (c # new)"
      using sorted props loc by (auto simp: scan_order_def)
    have cover': "\<exists>c\<in>set (c # new). start (location c) \<le> j \<and> j < end' (location c)"
      if j: "i \<le> j" "j \<le> length s" "addedPattern (drop j s) \<noteq> None" for j
    proof (cases "j < m_end m")
      case True
      from e(4) j have "\<not> j < m_index m" by auto
      with True loc show ?thesis by auto
    next
      case False
      with cover j obtain c' where "c' \<in> set new" "start (location c') \<le> j \<and> j < end' (location c')"
        by (meson not_less)
      then show ?thesis by auto
    qed
    from eq all_ok sorted' cover' show ?thesis by blast
  qed
qed

lemma deleted_loop_spec:
  "\<exists>new. deleted_loop rt s i (cs, n) = (cs @ new, n + length new)
      \<and> (\<forall>c\<in>set new. deleted_ok s c \<and> i \<le> start (location c))
      \<and> scan_order new
      \<and> (\<forall>j. i \<le> j \<and> j \<le> length s \<and> deletedPattern (drop j s) \<noteq> None
             \<longrightarrow> (\<exists>c\<in>set new. start (location c) \<le> j \<and> j < end' (location c)))"
proof (induction rt s i "(cs, n)" arbitrary: cs n rule: deleted_loop.induct)
  case (1 rt s i cs n)
  show ?case
  proof (cases "exec deletedPattern s i")
    case None
    then have "\<And>j. i \<le> j \<Longrightarrow> j \<le> length s \<Longrightarrow> deletedPattern (drop j s) = None"
      by (rule exec_None)
    with None show ?thesis by (intro exI [of _ "[]"]) (auto simp: scan_order_def)
  next
    case (Some m)
    define c where "c = \<lparr>id' = AltId (lit ''alt-deleted-'') n, type = Deleted, text' = [],
                originalText = Some (m_groups m), author = lit ''Document Author'', timestamp = new_Date rt,
                location = \<lparr>start = m_index m, end' = m_index m + length (m_0 m), paragraph' = None\<rparr>,
                comment = Some (lit ''Deleted content detected''), suggestions = None, resolved = None\<rparr>"
    note e = exec_Some [OF Some]
    from deletedPattern_Some [OF e(3)] obtain t where
      m0: "m_0 m = lit ''[Deleted: '' @ m_groups m @ lit '']''" and ne: "m_groups m \<noteq> []"
      and dr: "drop (m_index m) s = m_0 m @ t" by blast
    have len: "m_index m + length (m_0 m) \<le> length s"
      using drop_append_length [OF e(2) dr] .
    have loc: "start (location c) = m_index m" "end' (location c) = m_end m"
      by (simp_all add: c_def m_end_def)
    have c_ok: "deleted_ok s c"
      using len ne m0 dr by (simp add: deleted_ok_def literal_span_def span_text_def c_def)
    from "1" [OF Some, folded c_def] obtain new where
      new: "deleted_loop rt s (m_end m) (cs @ [c], Suc n) = ((cs @ [c]) @ new, Suc n + length new)"
      and props: "\<forall>c\<in>set new. deleted_ok s c \<and> m_end m \<le> start (location c)"
      and sorted: "scan_order new"
      and cover: "\<forall>j. m_end m \<le> j \<and> j \<le> length s \<and> deletedPattern (drop j s) \<noteq> None
             \<longrightarrow> (\<exists>c\<in>set new. start (location c) \<le> j \<and> j < end' (location c))"
      by blast
    have eq: "deleted_loop rt s i (cs, n) = (cs @ (c # new), n + length (c # new))"
      using Some new by (simp add: c_def)
    have le: "i \<le> m_end m" using e(1) by (simp add: m_end_def)
    have all_ok: "\<forall>c\<in>set (c # new). deleted_ok s c \<and> i \<le> start (location c)"
      using c_ok props e(1) le loc by auto
    have sorted': "scan_order (c # new)"
      using sorted props loc by (auto simp: scan_order_def)
    have cover': "\<exists>c\<in>set (c # new). start (location c) \<le> j \<and> j < end' (location c)"
      if j: "i \<le> j" "j \<le> length s" "deletedPattern (drop j s) \<noteq> None" for j
    proof (cases "j < m_end m")
      case True
      from e(4) j have "\<not> j < m_index m" by auto
      with True loc show ?thesis by auto
    next
      case False
      with cover j obtain c' where "c' \<in> set new" "start (location c') \<le> j \<and> j < end' (location c')"
        by (meson not_less)
      then show ?thesis by auto
    qed
    from eq all_ok sorted' cover' show ?thesis by blast
  qed
qed

lemma modified_loop_spec:
  "\<exists>new. modified_loop rt s i (cs, n) = (cs @ new, n + length new)
      \<and> (\<forall>c\<in>set new. modified_ok s c \<and> i \<le> start (location c))
      \<and> scan_order new
      \<and> (\<forall>j. i \<le> j \<and> j \<le> length s \<and> modifiedPattern (drop j s) \<noteq> None
             \<longrightarrow> (\<exists>c\<in>set new. start (location c) \<le> j \<and> j < end' (location c)))"
proof (induction rt s i "(cs, n)" arbitrary: cs n rule: modified_loop.induct)
  case (1 rt s i cs n)
  show ?case
  proof (cases "exec modifiedPattern s i")
    case None
    then have "\<And>j. i \<le> j \<Longrightarrow> j \<le> length s \<Longrightarrow> modifiedPattern (drop j s) = None"
      by (rule exec_None)
    with None show ?thesis by (intro exI [of _ "[]"]) (auto simp: scan_order_def)
  next
    case (Some m)
    define c where "c = \<lparr>id' = AltId (lit ''alt-modified-'') n, type = Modified, text' = snd (m_groups m),
                originalText = Some (fst (m_groups m)), author = lit ''Document Author'', timestamp = new_Date rt,
                location = \<lparr>start = m_index m, end' = m_index m + length (m_0 m), paragraph' = None\<rparr>,
                comment = Some (lit ''Modified content detected''), suggestions = None, resolved = None\<rparr>"
    note e = exec_Some [OF Some]
    have "modifiedPattern (drop (m_index m) s) = Some (m_0 m, (fst (m_groups m), snd (m_groups m)))"
      using e(3) by simp
    from modifiedPattern_Some [OF this] obtain t where
      m0: "m_0 m = lit ''[Modified: '' @ fst (m_groups m) @ lit '' -> '' @ snd (m_groups m) @ lit '']''"
      and ne: "fst (m_groups m) \<noteq> []" "snd (m_groups m) \<noteq> []"
      and dr: "drop (m_index m) s = m_0 m @ t" by blast
    have len: "m_index m + length (m_0 m) \<le> length s"
      using drop_append_length [OF e(2) dr] .
    have loc: "start (location c) = m_index m" "end' (location c) = m_end m"
      by (simp_all add: c_def m_end_def)
    have c_ok: "modified_ok s c"
      using len ne m0 dr by (simp add: modified_ok_def literal_span_def span_text_def c_def)
    from "1" [OF Some, folded c_def] obtain new where
      new: "modified_loop rt s (m_end m) (cs @ [c], Suc n) = ((cs @ [c]) @ new, Suc n + length new)"
      and props: "\<forall>c\<in>set new. modified_ok s c \<and> m_end m \<le> start (location c)"
      and sorted: "scan_order new"
      and cover: "\<forall>j. m_end m \<le> j \<and> j \<le> length s \<and> modifiedPattern (drop j s) \<noteq> None
             \<longrightarrow> (\<exists>c\<in>set new. start (location c) \<le> j \<and> j < end' (location c))"
      by blast
    have eq: "modified_loop rt s i (cs, n) = (cs @ (c # new), n + length (c # new))"
      using Some new by (simp add: c_def)
    have le: "i \<le> m_end m" using e(1) by (simp add: m_end_def)
    have all_ok: "\<forall>c\<in>set (c # new). modified_ok s c \<and> i \<le> start (location c)"
      using c_ok props e(1) le loc by auto
    have sorted': "scan_order (c # new)"
      using sorted props loc by (auto simp: scan_order_def)
    have cover': "\<exists>c\<in>set (c # new). start (location c) \<le> j \<and> j < end' (location c)"
      if j: "i \<le> j" "j \<le> length s" "modifiedPattern (drop j s) \<noteq> None" for j
    proof (cases "j < m_end m")
      case True
      from e(4) j have "\<not> j < m_index m" by auto
      with True loc show ?thesis by auto
    next
      case False
      with cover j obtain c' where "c' \<in> set new" "start (location c') \<le> j \<and> j < end' (location c')"
        by (meson not_less)
      then show ?thesis by auto
    qed
    from eq all_ok sorted' cover' show ?thesis by blast
  qed
qed

text \<open>The result of the fallback extractor is the three groups, one after the other.\<close>

lemma fallback_groups:
  "\<exists>as ds ms. parseAlternativeTrackChanges rt s = as @ ds @ ms
      \<and> (\<forall>c\<in>set as. added_ok s c) \<and> (\<forall>c\<in>set ds. deleted_ok s c) \<and> (\<forall>c\<in>set ms. modified_ok s c)
      \<and> scan_order as \<and> scan_order ds \<and> scan_order ms
      \<and> (\<forall>j. j \<le> length s \<and> addedPattern (drop j s) \<noteq> None
             \<longrightarrow> (\<exists>c\<in>set as. start (location c) \<le> j \<and> j < end' (location c)))
      \<and> (\<forall>j. j \<le> length s \<and> deletedPattern (drop j s) \<noteq> None
             \<longrightarrow> (\<exists>c\<in>set ds. start (location c) \<le> j \<and> j < end' (location c)))
      \<and> (\<forall>j. j \<le> length s \<and> modifiedPattern (drop j s) \<noteq> None
             \<longrightarrow> (\<exists>c\<in>set ms. start (location c) \<le> j \<and> j < end' (location c)))"
proof -
  from added_loop_spec [of rt s 0 "[]" 0] obtain as where
    as: "added_loop rt s 0 ([], 0) = (as, length as)"
      "\<forall>c\<in>set as. added_ok s c" "scan_order as"
      "\<forall>j. j \<le> length s \<and> addedPattern (drop j s) \<noteq> None
           \<longrightarrow> (\<exists>c\<in>set as. start (location c) \<le> j \<and> j < end' (location c))"
    by auto
  from deleted_loop_spec [of rt s 0 as "length as"] obtain ds where
    ds: "deleted_loop rt s 0 (as, length as) = (as @ ds, length as + length ds)"
      "\<forall>c\<in>set ds. deleted_ok s c" "scan_order ds"
      "\<forall>j. j \<le> length s \<and> deletedPattern (drop j s) \<noteq> None
           \<longrightarrow> (\<exists>c\<in>set ds. start (location c) \<le> j \<and> j < end' (location c))"
    by auto
  from modified_loop_spec [of rt s 0 "as @ ds" "length as + length ds"] obtain ms where
    ms: "modified_loop rt s 0 (as @ ds, length as + length ds)
           = ((as @ ds) @ ms, length as + length ds + length ms)"
      "\<forall>c\<in>set ms. modified_ok s c" "scan_order ms"
      "\<forall>j. j \<le> length s \<and> modifiedPattern (drop j s) \<noteq> None
           \<longrightarrow> (\<exists>c\<in>set ms. start (location c) \<le> j \<and> j < end' (location c))"
    by auto
  have "parseAlternativeTrackChanges rt s = as @ ds @ ms"
    by (simp only: parseAlternativeTrackChanges_def Let_def as(1) ds(1) ms(1) fst_conv append_assoc)
  with as(2-) ds(2-) ms(2-) show ?thesis by blast
qed


section \<open>The fallback extractor: order of the groups, authors and locations\<close>




section \<open>Facts about the structured extractors\<close>

lemma set_map_filter: "set (List.map_filter f xs) = {y. \<exists>x\<in>set xs. f x = Some y}"
  by (induction xs) (auto split: option.splits)

lemma ins_callback_Some:
  assumes "ins_callback rt e = Some c"
  shows "type c = Added" "text' c = extractTextFromElement e" "text' c \<noteq> []" "originalText c = None"
    "author c = element_author e" "timestamp c = element_date rt e"
    "comment c = None" "suggestions c = None" "resolved c = None"
  using assms by (auto simp: ins_callback_def Let_def split: if_splits)

lemma del_callback_Some:
  assumes "del_callback rt e = Some c"
  shows "type c = Deleted" "text' c = []" "originalText c = Some (extractTextFromElement e)"
    "extractTextFromElement e \<noteq> []"
    "author c = element_author e" "timestamp c = element_date rt e"
    "comment c = None" "suggestions c = None" "resolved c = None"
  using assms by (auto simp: del_callback_def Let_def split: if_splits)

lemma comment_callback_Some:
  assumes "comment_callback rt e = Some c"
  shows "type c = Comment" "text' c = extractTextFromElement e" "text' c \<noteq> []"
    "author c = element_author e" "timestamp c = element_date rt e"
    "comment c = Some (text' c)" "suggestions c = None" "resolved c = None"
  using assms by (auto simp: comment_callback_def Let_def split: if_splits)

lemma extractChangesFromXML_mem:
  assumes "c \<in> set (extractChangesFromXML rt xmlObj cs)"
  shows "c \<in> set cs \<or> (\<exists>e. ins_callback rt e = Some c) \<or> (\<exists>e. del_callback rt e = Some c)"
  using assms
  by (auto simp: extractChangesFromXML_def set_map_filter split: option.splits if_splits)

lemma extractCommentsFromXML_mem:
  assumes "c \<in> set (extractCommentsFromXML rt xmlObj cs)"
  shows "c \<in> set cs \<or> (\<exists>e. comment_callback rt e = Some c)"
  using assms
  by (auto simp: extractCommentsFromXML_def set_map_filter split: option.splits if_splits)

text \<open>What the try block returns was built by the two extractors from the empty array.\<close>

lemma structured_extraction_mem:
  assumes "fst (structured_extraction env rt w) = Inr cs" "c \<in> set cs"
  shows "(\<exists>e. ins_callback rt e = Some c) \<or> (\<exists>e. del_callback rt e = Some c)
         \<or> (\<exists>e. comment_callback rt e = Some c)"
proof -
  from assms(1) obtain x y where
    "cs = extractChangesFromXML rt x [] \<or> cs = extractCommentsFromXML rt y (extractChangesFromXML rt x [])"
    by (auto simp: structured_extraction_def Let_def
             split: sum.splits option.splits if_splits prod.splits)
  with assms(2) show ?thesis
    using extractChangesFromXML_mem [of c rt x "[]"]
      extractCommentsFromXML_mem [of c rt y "extractChangesFromXML rt x []"]
    by auto
qed

text \<open>The orchestrator returns what the try block built, or what the fallback extractor
  found.\<close>

lemma extractTrackChanges_cases:
  "(\<exists>cs. fst (structured_extraction env rt w) = Inr cs \<and> fst (extractTrackChanges env rt w) = cs)
   \<or> (\<exists>e s. fst (structured_extraction env rt w) = Inl e
            \<and> fst (extractTrackChanges env rt w) = parseAlternativeTrackChanges rt s)"
proof (cases "structured_extraction env rt w")
  case (Pair r w1)
  show ?thesis
  proof (cases r)
    case (Inl e)
    obtain s w3 where g: "getTextContent env
        (emit (console_error (lit ''Could not extract track changes from document:'')) w1) = (s, w3)"
      by (cases "getTextContent env
        (emit (console_error (lit ''Could not extract track changes from document:'')) w1)")
    have "fst (extractTrackChanges env rt w) = parseAlternativeTrackChanges rt s"
      using Pair Inl g by (simp add: extractTrackChanges_def Let_def)
    with Pair Inl show ?thesis by auto
  next
    case (Inr cs)
    with Pair show ?thesis by (simp add: extractTrackChanges_def)
  qed
qed

lemma parseDocument_Inr:
  assumes "fst (parseDocument env rt w) = Inr r"
  shows "\<exists>html w1.
           mammoth_convertToHtml env w = (Inr html, w1)
           \<and> content r = html_to_text html
           \<and> changes r = fst (extractTrackChanges env rt w1)
           \<and> wordCount (metadata r) = length (split_whitespace (content r))
           \<and> changeCount (metadata r) = length (changes r)
           \<and> authors (metadata r) = new_Set (map author (changes r))"
  using assms
  by (auto simp: parseDocument_def Let_def split: prod.splits sum.splits)


section \<open>Facts about the DOM variant\<close>

lemma insertion_callback_Some:
  assumes "insertion_callback rt ie = Some c"
  shows "type c = Added" "text' c = trim (extractTextFromElement_dom (snd ie))" "text' c \<noteq> []"
    "originalText c = None"
    "author c = or_Unknown (or_else (getAttribute (snd ie) (lit ''w:author''))
                                     (getAttribute (snd ie) (lit ''author'')))"
    "timestamp c = date_of rt (or_else (getAttribute (snd ie) (lit ''w:date''))
                                        (getAttribute (snd ie) (lit ''date'')))"
    "comment c = None" "suggestions c = None" "resolved c = None"
  using assms by (auto simp: insertion_callback_def Let_def split: if_splits)

lemma deletion_callback_Some:
  assumes "deletion_callback rt ie = Some c"
  shows "type c = Deleted" "text' c = []"
    "originalText c = Some (trim (extractTextFromElement_dom (snd ie)))"
    "trim (extractTextFromElement_dom (snd ie)) \<noteq> []"
    "author c = or_Unknown (or_else (getAttribute (snd ie) (lit ''w:author''))
                                     (getAttribute (snd ie) (lit ''author'')))"
    "timestamp c = date_of rt (or_else (getAttribute (snd ie) (lit ''w:date''))
                                        (getAttribute (snd ie) (lit ''date'')))"
    "comment c = None" "suggestions c = None" "resolved c = None"
  using assms by (auto simp: deletion_callback_def Let_def split: if_splits)

lemma prefixed_callback_Some:
  assumes "prefixed_callback rt ie = Some c"
  shows "shape_invariant c" "type c = Added \<or> type c = Deleted"
    "author c = or_Unknown (getAttribute (snd ie) (lit ''w:author''))"
    "timestamp c = date_of rt (getAttribute (snd ie) (lit ''w:date''))"
    "comment c = None" "suggestions c = None" "resolved c = None"
  using assms
  by (auto simp: prefixed_callback_def shape_invariant_def Let_def split: if_splits)

lemma extractChangesFromXML_dom_mem:
  assumes "c \<in> set (extractChangesFromXML_dom rt xmlDoc cs)"
  shows "c \<in> set cs \<or> (\<exists>ie. insertion_callback rt ie = Some c)
         \<or> (\<exists>ie. deletion_callback rt ie = Some c) \<or> (\<exists>ie. prefixed_callback rt ie = Some c)"
  using assms
  by (auto simp: extractChangesFromXML_dom_def Let_def set_map_filter)

section \<open>The shape invariant\<close>

lemma shape_ins: "ins_callback rt e = Some c \<Longrightarrow> shape_invariant c"
  by (auto simp: shape_invariant_def ins_callback_def Let_def split: if_splits)

lemma shape_del: "del_callback rt e = Some c \<Longrightarrow> shape_invariant c"
  by (auto simp: shape_invariant_def del_callback_def Let_def split: if_splits)

lemma shape_comment: "comment_callback rt e = Some c \<Longrightarrow> shape_invariant c"
  by (auto simp: shape_invariant_def comment_callback_def Let_def split: if_splits)

lemma shape_insertion: "insertion_callback rt ie = Some c \<Longrightarrow> shape_invariant c"
  by (auto simp: shape_invariant_def insertion_callback_def Let_def split: if_splits)

lemma shape_deletion: "deletion_callback rt ie = Some c \<Longrightarrow> shape_invariant c"
  by (auto simp: shape_invariant_def deletion_callback_def Let_def split: if_splits)

lemma shape_structured: "c \<in> set (extractChangesFromXML rt xmlObj []) \<Longrightarrow> shape_invariant c"
  using extractChangesFromXML_mem [of c rt xmlObj "[]"] by (auto intro: shape_ins shape_del)

lemma shape_fallback: "c \<in> set (parseAlternativeTrackChanges rt s) \<Longrightarrow> shape_invariant c"
proof -
  assume c: "c \<in> set (parseAlternativeTrackChanges rt s)"
  from fallback_groups [of rt s] obtain as ds ms where
    eq: "parseAlternativeTrackChanges rt s = as @ ds @ ms"
    and ok: "\<forall>c\<in>set as. added_ok s c" "\<forall>c\<in>set ds. deleted_ok s c" "\<forall>c\<in>set ms. modified_ok s c"
    by (elim exE conjE) (rule that)
  from c eq have "c \<in> set as \<or> c \<in> set ds \<or> c \<in> set ms" by simp
  with ok have "added_ok s c \<or> deleted_ok s c \<or> modified_ok s c" by blast
  then show ?thesis
    by (auto simp: added_ok_def deleted_ok_def modified_ok_def shape_invariant_def
             split: option.splits)
qed

lemma shape_extractTrackChanges:
  "c \<in> set (fst (extractTrackChanges env rt w)) \<Longrightarrow> shape_invariant c"
  using extractTrackChanges_cases [of env rt w] structured_extraction_mem [of env rt w _ c]
  by (auto intro: shape_ins shape_del shape_comment shape_fallback)

lemma shape_dom: "c \<in> set (extractChangesFromXML_dom rt xmlDoc []) \<Longrightarrow> shape_invariant c"
  using extractChangesFromXML_dom_mem [of c rt xmlDoc "[]"]
  by (auto intro: shape_insertion shape_deletion prefixed_callback_Some(1))

text \<open>
  Claim C4. Every change that the engine returns has the shape of its kind: a \<open>deleted\<close>
  change has empty \<open>text\<close> and a non-empty \<open>originalText\<close>, an \<open>added\<close> change has
  non-empty \<open>text\<close> and no \<open>originalText\<close>. This holds for the structured extractor, for
  the fallback extractor, for whatever \<open>extractTrackChanges\<close> and \<open>parseDocument\<close> return,
  and for the DOM variant of the structured extractor.
\<close>

theorem every_change_has_its_shape:
  "(\<forall>c\<in>set (extractChangesFromXML rt xmlObj []). shape_invariant c)
   \<and> (\<forall>c\<in>set (parseAlternativeTrackChanges rt s). shape_invariant c)
   \<and> (\<forall>c\<in>set (fst (extractTrackChanges env rt w)). shape_invariant c)
   \<and> (\<forall>r. fst (parseDocument env rt w) = Inr r \<longrightarrow> (\<forall>c\<in>set (changes r). shape_invariant c))
   \<and> (\<forall>c\<in>set (extractChangesFromXML_dom rt xmlDoc []). shape_invariant c)"
proof (intro conjI ballI allI impI)
  fix c assume "c \<in> set (extractChangesFromXML rt xmlObj [])"
  then show "shape_invariant c" by (rule shape_structured)
next
  fix c assume "c \<in> set (parseAlternativeTrackChanges rt s)"
  then show "shape_invariant c" by (rule shape_fallback)
next
  fix c assume "c \<in> set (fst (extractTrackChanges env rt w))"
  then show "shape_invariant c" by (rule shape_extractTrackChanges)
next
  fix r c assume r: "fst (parseDocument env rt w) = Inr r" and c: "c \<in> set (changes r)"
  from parseDocument_Inr [OF r] obtain w1 where "changes r = fst (extractTrackChanges env rt w1)"
    by blast
  with c show "shape_invariant c" by (simp add: shape_extractTrackChanges)
next
  fix c assume "c \<in> set (extractChangesFromXML_dom rt xmlDoc [])"
  then show "shape_invariant c" by (rule shape_dom)
qed

theorem every_change_has_its_shape_witness:
  "map type (extractChangesFromXML sample_runtime (Some sample_tree) []) = [Added, Deleted]
   \<and> list_all shape_invariant (extractChangesFromXML sample_runtime (Some sample_tree) [])
   \<and> map type (parseAlternativeTrackChanges sample_runtime (lit ''[Deleted: q] [Added: x]'')) = [Added, Deleted]
   \<and> list_all shape_invariant (parseAlternativeTrackChanges sample_runtime (lit ''[Deleted: q] [Added: x]''))
   \<and> map type (fst (extractTrackChanges sample_env sample_runtime world0)) = [Added, Deleted, Comment]
   \<and> list_all shape_invariant (fst (extractTrackChanges sample_env sample_runtime world0))
   \<and> (case fst (parseDocument sample_env sample_runtime world0) of
         Inl e \<Rightarrow> False
       | Inr r \<Rightarrow> map type (changes r) = [Added, Deleted, Comment] \<and> list_all shape_invariant (changes r))
   \<and> map type (extractChangesFromXML_dom sample_runtime sample_document []) = [Added, Added, Deleted, Added]
   \<and> list_all shape_invariant (extractChangesFromXML_dom sample_runtime sample_document [])"
proof -
  note inst = every_change_has_its_shape [of sample_runtime "Some sample_tree"
      "lit ''[Deleted: q] [Added: x]''" sample_env world0 sample_document]
  have e1: "map type (extractChangesFromXML sample_runtime (Some sample_tree) []) = [Added, Deleted]"
    by code_simp
  have e2: "map type (parseAlternativeTrackChanges sample_runtime (lit ''[Deleted: q] [Added: x]''))
              = [Added, Deleted]"
    by code_simp
  have e3: "map type (fst (extractTrackChanges sample_env sample_runtime world0)) = [Added, Deleted, Comment]"
    by code_simp
  have e4: "case fst (parseDocument sample_env sample_runtime world0) of
              Inl e \<Rightarrow> False | Inr r \<Rightarrow> map type (changes r) = [Added, Deleted, Comment]"
    by code_simp
  have e5: "map type (extractChangesFromXML_dom sample_runtime sample_document [])
              = [Added, Added, Deleted, Added]"
    by code_simp
  have s1: "list_all shape_invariant (extractChangesFromXML sample_runtime (Some sample_tree) [])"
    using inst by (simp add: list_all_iff)
  have s2: "list_all shape_invariant (parseAlternativeTrackChanges sample_runtime (lit ''[Deleted: q] [Added: x]''))"
    using inst by (simp add: list_all_iff)
  have s3: "list_all shape_invariant (fst (extractTrackChanges sample_env sample_runtime world0))"
    using inst by (simp add: list_all_iff)
  have s4: "case fst (parseDocument sample_env sample_runtime world0) of
         Inl e \<Rightarrow> False
       | Inr r \<Rightarrow> map type (changes r) = [Added, Deleted, Comment] \<and> list_all shape_invariant (changes r)"
    using inst e4 by (simp add: list_all_iff split: sum.splits)
  have s5: "list_all shape_invariant (extractChangesFromXML_dom sample_runtime sample_document [])"
    using inst by (simp add: list_all_iff)
  from e1 s1 e2 s2 e3 s3 s4 e5 s5 show ?thesis by (intro conjI)
qed


section \<open>The fields \<open>comment\<close>, \<open>suggestions\<close> and \<open>resolved\<close>\<close>

lemma fields_structured:
  assumes "c \<in> set (extractChangesFromXML rt xmlObj [])"
  shows "comment c = None \<and> suggestions c = None \<and> resolved c = None"
  using extractChangesFromXML_mem [OF assms]
  by (auto simp: ins_callback_Some del_callback_Some)

lemma fields_comments:
  assumes "c \<in> set (extractCommentsFromXML rt xmlObj [])"
  shows "type c = Comment \<and> comment c = Some (text' c) \<and> suggestions c = None \<and> resolved c = None"
  using extractCommentsFromXML_mem [OF assms]
  by (auto simp: comment_callback_Some)

lemma fields_fallback:
  assumes "c \<in> set (parseAlternativeTrackChanges rt s)"
  shows "((type c = Added \<and> comment c = Some (lit ''Added content detected''))
          \<or> (type c = Deleted \<and> comment c = Some (lit ''Deleted content detected''))
          \<or> (type c = Modified \<and> comment c = Some (lit ''Modified content detected'')))
         \<and> suggestions c = None \<and> resolved c = None"
proof -
  from fallback_groups [of rt s] obtain as ds ms where
    eq: "parseAlternativeTrackChanges rt s = as @ ds @ ms"
    and ok: "\<forall>c\<in>set as. added_ok s c" "\<forall>c\<in>set ds. deleted_ok s c" "\<forall>c\<in>set ms. modified_ok s c"
    by (elim exE conjE) (rule that)
  from assms eq have "c \<in> set as \<or> c \<in> set ds \<or> c \<in> set ms" by simp
  with ok have "added_ok s c \<or> deleted_ok s c \<or> modified_ok s c" by blast
  then show ?thesis
    by (auto simp: added_ok_def deleted_ok_def modified_ok_def)
qed

lemma fields_extractTrackChanges:
  assumes "c \<in> set (fst (extractTrackChanges env rt w))"
  shows "suggestions c = None \<and> resolved c = None"
  using extractTrackChanges_cases [of env rt w] structured_extraction_mem [of env rt w _ c] assms
  by (auto simp: ins_callback_Some del_callback_Some comment_callback_Some dest: fields_fallback)

text \<open>
  Claim C5, as the code has it. No change that the engine emits carries \<open>suggestions\<close> or
  \<open>resolved\<close>. The field \<open>comment\<close> is absent on the changes of the structured
  insertion and deletion extraction; the comment extractor sets it to the text of the
  comment, and the fallback extractor sets it to \<open>Added content detected\<close>,
  \<open>Deleted content detected\<close> or \<open>Modified content detected\<close>.
\<close>

theorem comment_suggestions_resolved_by_extractor:
  "(\<forall>c\<in>set (extractChangesFromXML rt xmlObj []).
       comment c = None \<and> suggestions c = None \<and> resolved c = None)
   \<and> (\<forall>c\<in>set (extractCommentsFromXML rt xmlObj []).
         type c = Comment \<and> comment c = Some (text' c) \<and> suggestions c = None \<and> resolved c = None)
   \<and> (\<forall>c\<in>set (parseAlternativeTrackChanges rt s).
         ((type c = Added \<and> comment c = Some (lit ''Added content detected''))
          \<or> (type c = Deleted \<and> comment c = Some (lit ''Deleted content detected''))
          \<or> (type c = Modified \<and> comment c = Some (lit ''Modified content detected'')))
         \<and> suggestions c = None \<and> resolved c = None)
   \<and> (\<forall>r. fst (parseDocument env rt w) = Inr r
          \<longrightarrow> (\<forall>c\<in>set (changes r). suggestions c = None \<and> resolved c = None))"
proof (intro conjI ballI allI impI)
  fix c assume c: "c \<in> set (extractChangesFromXML rt xmlObj [])"
  from fields_structured [OF c]
  show "comment c = None" "suggestions c = None" "resolved c = None" by simp_all
next
  fix c assume c: "c \<in> set (extractCommentsFromXML rt xmlObj [])"
  from fields_comments [OF c]
  show "type c = Comment" "comment c = Some (text' c)" "suggestions c = None" "resolved c = None"
    by simp_all
next
  fix c assume c: "c \<in> set (parseAlternativeTrackChanges rt s)"
  from fields_fallback [OF c]
  show "(type c = Added \<and> comment c = Some (lit ''Added content detected''))
          \<or> (type c = Deleted \<and> comment c = Some (lit ''Deleted content detected''))
          \<or> (type c = Modified \<and> comment c = Some (lit ''Modified content detected''))"
    "suggestions c = None" "resolved c = None" by simp_all
next
  fix r c assume r: "fst (parseDocument env rt w) = Inr r" and c: "c \<in> set (changes r)"
  from parseDocument_Inr [OF r] obtain w1 where "changes r = fst (extractTrackChanges env rt w1)"
    by blast
  with c fields_extractTrackChanges [of c env rt w1]
  show "suggestions c = None" "resolved c = None" by simp_all
qed

theorem comment_suggestions_resolved_by_extractor_witness:
  "length (extractChangesFromXML sample_runtime (Some sample_tree) []) = 2
   \<and> list_all (\<lambda>c. comment c = None \<and> suggestions c = None \<and> resolved c = None)
        (extractChangesFromXML sample_runtime (Some sample_tree) [])
   \<and> length (extractCommentsFromXML sample_runtime (Some sample_comments) []) = 1
   \<and> list_all (\<lambda>c. comment c = Some (text' c) \<and> suggestions c = None \<and> resolved c = None)
        (extractCommentsFromXML sample_runtime (Some sample_comments) [])
   \<and> length (parseAlternativeTrackChanges sample_runtime (lit ''[Added: x]'')) = 1
   \<and> list_all (\<lambda>c. comment c \<noteq> None \<and> suggestions c = None \<and> resolved c = None)
        (parseAlternativeTrackChanges sample_runtime (lit ''[Added: x]''))
   \<and> (case fst (parseDocument sample_env sample_runtime world0) of
         Inl e \<Rightarrow> False
       | Inr r \<Rightarrow> length (changes r) = 3
                 \<and> list_all (\<lambda>c. suggestions c = None \<and> resolved c = None) (changes r))"
proof -
  note inst = comment_suggestions_resolved_by_extractor
      [of sample_runtime "Some sample_tree" "lit ''[Added: x]''" sample_env world0]
  note inst' = comment_suggestions_resolved_by_extractor
      [of sample_runtime "Some sample_comments" "lit ''[Added: x]''" sample_env world0]
  have e1: "length (extractChangesFromXML sample_runtime (Some sample_tree) []) = 2"
    by code_simp
  have e2: "length (extractCommentsFromXML sample_runtime (Some sample_comments) []) = 1"
    by code_simp
  have e3: "length (parseAlternativeTrackChanges sample_runtime (lit ''[Added: x]'')) = 1"
    by code_simp
  have e4: "case fst (parseDocument sample_env sample_runtime world0) of
              Inl e \<Rightarrow> False | Inr r \<Rightarrow> length (changes r) = 3"
    by code_simp
  have s1: "list_all (\<lambda>c. comment c = None \<and> suggestions c = None \<and> resolved c = None)
        (extractChangesFromXML sample_runtime (Some sample_tree) [])"
    using inst by (simp add: list_all_iff)
  have s2: "list_all (\<lambda>c. comment c = Some (text' c) \<and> suggestions c = None \<and> resolved c = None)
        (extractCommentsFromXML sample_runtime (Some sample_comments) [])"
    using inst' by (simp add: list_all_iff)
  have s3: "list_all (\<lambda>c. comment c \<noteq> None \<and> suggestions c = None \<and> resolved c = None)
        (parseAlternativeTrackChanges sample_runtime (lit ''[Added: x]''))"
    using inst unfolding list_all_iff by fastforce
  have s4: "case fst (parseDocument sample_env sample_runtime world0) of
         Inl e \<Rightarrow> False
       | Inr r \<Rightarrow> length (changes r) = 3
                 \<and> list_all (\<lambda>c. suggestions c = None \<and> resolved c = None) (changes r)"
    using inst e4 by (simp add: list_all_iff split: sum.splits)
  from e1 s1 e2 s2 e3 s3 s4 show ?thesis by (intro conjI)
qed

text \<open>
  Claim C5 as the specification states it fails: the fallback extractor and the comment
  extractor both emit changes whose \<open>comment\<close> is populated.
\<close>

theorem extractors_populate_comment:
  "map comment (parseAlternativeTrackChanges sample_runtime (lit ''[Added: x]''))
     = [Some (lit ''Added content detected'')]
   \<and> map comment (extractCommentsFromXML sample_runtime (Some sample_comments) [])
     = [Some (lit ''note'')]"
  by code_simp

section \<open>The trees of the configured parser\<close>

text \<open>
  On a tree without \<open>$\<close>, the elements that \<open>findElementsRecursive\<close> hands to the
  callbacks have no \<open>$\<close> either, so \<open>element.$?.['w:author']\<close> and
  \<open>element.$?.['w:date']\<close> are \<open>undefined\<close> for each of them.
\<close>

lemma as_array_mergeAttrs:
  assumes "mergeAttrs_tree v" and "e \<in> set (as_array v)"
  shows "mergeAttrs_tree e"
  using assms by (cases v) (auto simp: list_all_iff)

lemma findElementsRecursive_mergeAttrs:
  "mergeAttrs_tree t \<Longrightarrow> e \<in> set (findElementsRecursive t k) \<Longrightarrow> mergeAttrs_tree e"
proof (induction t k rule: findElementsRecursive.induct)
  case (1 s tagName)
  then show ?case by simp
next
  case (2 xs tagName)
  then show ?case by (auto simp: list_all_iff)
next
  case (3 ck at ch tagName)
  from "3.prems"(1) have at: "at = None" and ch: "\<forall>kv\<in>set ch. mergeAttrs_tree (snd kv)"
    by (simp_all add: list_all_iff)
  have "(\<exists>v. map_of ch tagName = Some v \<and> truthy v \<and> e \<in> set (as_array v))
        \<or> (\<exists>kv\<in>set ch. e \<in> set (findElementsRecursive (snd kv) tagName))"
  proof (cases "map_of ch tagName")
    case None
    with "3.prems"(2) at show ?thesis by auto
  next
    case (Some v)
    with "3.prems"(2) at show ?thesis by (cases "truthy v") auto
  qed
  then consider
      (here) v where "map_of ch tagName = Some v" "truthy v" "e \<in> set (as_array v)"
    | (below) kv where "kv \<in> set ch" "e \<in> set (findElementsRecursive (snd kv) tagName)"
    by blast
  then show ?case
  proof cases
    case here
    from here(1) have "(tagName, v) \<in> set ch" by (rule map_of_SomeD)
    with ch have "mergeAttrs_tree v" by force
    with here(3) show ?thesis by (rule as_array_mergeAttrs [rotated])
  next
    case below
    with ch "3.IH" show ?thesis by blast
  qed
qed

lemma dollar_mergeAttrs:
  assumes "mergeAttrs_tree e"
  shows "dollar e name = None"
  using assms by (cases e) auto

text \<open>The changes of the xml2js extractor are the ones its callbacks emit for the
  elements found under \<open>w:ins\<close> and \<open>w:del\<close>.\<close>

lemma extractChangesFromXML_elements:
  "c \<in> set (extractChangesFromXML rt (Some x) []) \<longleftrightarrow>
     (\<exists>document. js_prop x (lit ''w:document'') = Some document \<and> truthy document
        \<and> ((\<exists>e\<in>set (findElementsRecursive document (lit ''w:ins'')). ins_callback rt e = Some c)
           \<or> (\<exists>e\<in>set (findElementsRecursive document (lit ''w:del'')). del_callback rt e = Some c)))"
proof (cases "js_prop x (lit ''w:document'')")
  case None
  then show ?thesis by (simp add: extractChangesFromXML_def)
next
  case (Some document)
  then show ?thesis by (auto simp: extractChangesFromXML_def set_map_filter)
qed

text \<open>Every change that the xml2js extractor emits on a tree without \<open>$\<close> comes from
  an element without \<open>$\<close>.\<close>

lemma extractChangesFromXML_mergeAttrs:
  assumes "mergeAttrs_tree x" and "c \<in> set (extractChangesFromXML rt (Some x) [])"
  shows "\<exists>e. mergeAttrs_tree e \<and> (ins_callback rt e = Some c \<or> del_callback rt e = Some c)"
proof -
  from assms(2) obtain document e where
    d: "js_prop x (lit ''w:document'') = Some document" and
    e: "e \<in> set (findElementsRecursive document (lit ''w:ins'')) \<and> ins_callback rt e = Some c
        \<or> e \<in> set (findElementsRecursive document (lit ''w:del'')) \<and> del_callback rt e = Some c"
    unfolding extractChangesFromXML_elements by blast
  from d obtain ck at ch where x: "x = XObject ck at ch" and m: "map_of ch (lit ''w:document'') = Some document"
    by (cases x) auto
  from m have "(lit ''w:document'', document) \<in> set ch" by (rule map_of_SomeD)
  with assms(1) x have "mergeAttrs_tree document" by (force simp: list_all_iff)
  with e have "mergeAttrs_tree e" by (auto dest: findElementsRecursive_mergeAttrs)
  with e show ?thesis by blast
qed

text \<open>
  The change that the xml2js extractor emits for \<open>merged_tree\<close>. Its text holds the
  values of the two attributes before the text of the run, since they are among the
  \<open>Object.values\<close> of the element.
\<close>

lemma changes_of_merged_tree:
  "map (\<lambda>c. (type c, text' c, author c, timestamp c))
     (extractChangesFromXML sample_runtime (Some merged_tree) [])
   = [(Added, lit ''Alice2024-01-15T10:30:00Zhello'', lit ''Unknown'', DateValue 1000)]"
  by code_simp

section \<open>The timestamp of a change\<close>

text \<open>
  The DOM variant reads the date attribute: \<open>w:date\<close>, or \<open>date\<close> when \<open>w:date\<close> is
  missing or empty, in its selector passes, and \<open>w:date\<close> in its third pass. The
  timestamp is the clock when the attribute is absent or empty and \<open>new Date(s)\<close>
  otherwise, which is an \<open>Invalid Date\<close> when \<open>s\<close> does not parse.
\<close>

lemma dom_timestamp_of_emitted_change:
  "((insertion_callback rt (i, el) = Some c \<or> deletion_callback rt (i, el) = Some c) \<longrightarrow>
        timestamp c =
          (case or_else (getAttribute el (lit ''w:date'')) (getAttribute el (lit ''date'')) of
             None \<Rightarrow> DateValue (now rt)
           | Some d \<Rightarrow> if d = [] then DateValue (now rt)
                       else (case dateParse rt d of None \<Rightarrow> InvalidDate | Some t \<Rightarrow> DateValue t)))
   \<and> (prefixed_callback rt (i, el) = Some c \<longrightarrow>
        timestamp c =
          (case getAttribute el (lit ''w:date'') of
             None \<Rightarrow> DateValue (now rt)
           | Some d \<Rightarrow> if d = [] then DateValue (now rt)
                       else (case dateParse rt d of None \<Rightarrow> InvalidDate | Some t \<Rightarrow> DateValue t)))"
proof (intro conjI impI)
  assume "insertion_callback rt (i, el) = Some c \<or> deletion_callback rt (i, el) = Some c"
  then have "timestamp c = date_of rt (or_else (getAttribute el (lit ''w:date''))
                                               (getAttribute el (lit ''date'')))"
    by (auto simp: insertion_callback_Some deletion_callback_Some)
  then show "timestamp c =
          (case or_else (getAttribute el (lit ''w:date'')) (getAttribute el (lit ''date'')) of
             None \<Rightarrow> DateValue (now rt)
           | Some d \<Rightarrow> if d = [] then DateValue (now rt)
                       else (case dateParse rt d of None \<Rightarrow> InvalidDate | Some t \<Rightarrow> DateValue t))"
    by (simp add: date_of_def new_Date_def new_Date_of_def split: option.splits)
next
  assume "prefixed_callback rt (i, el) = Some c"
  then have "timestamp c = date_of rt (getAttribute el (lit ''w:date''))"
    using prefixed_callback_Some(4) [of rt "(i, el)" c] by simp
  then show "timestamp c =
          (case getAttribute el (lit ''w:date'') of
             None \<Rightarrow> DateValue (now rt)
           | Some d \<Rightarrow> if d = [] then DateValue (now rt)
                       else (case dateParse rt d of None \<Rightarrow> InvalidDate | Some t \<Rightarrow> DateValue t))"
    by (simp add: date_of_def new_Date_def new_Date_of_def split: option.splits)
qed

text \<open>In the DOM variant, an insertion whose date attribute is \<open>yesterday\<close>, which the
  date parser does not accept, gets the timestamp \<open>Invalid Date\<close>, while the clock
  reads 1000.\<close>

lemma dom_unparseable_date_is_not_the_clock:
  "getAttribute plain_ins (lit ''date'') = Some (lit ''yesterday'')
   \<and> dateParse sample_runtime (lit ''yesterday'') = None
   \<and> new_Date sample_runtime = DateValue 1000
   \<and> map timestamp (List.map_filter (insertion_callback sample_runtime) [(0, plain_ins)]) = [InvalidDate]"
  by code_simp

text \<open>
  Claim C6 on \<open>docxParser.ts\<close>. The claim gives a matched element the parsed date
  attribute as its timestamp when the attribute is present and parseable. The xml2js
  extractor reads the date from \<open>element.$\<close>, which the parser of \<open>parseXMLPromise\<close>
  never builds: on every tree of that parser, the timestamp of every emitted change is
  the extraction-time clock, whatever date the element carries.
\<close>

theorem timestamp_is_the_clock_on_merged_attributes:
  assumes "mergeAttrs_tree x" and "c \<in> set (extractChangesFromXML rt (Some x) [])"
  shows "timestamp c = DateValue (now rt)"
proof -
  from extractChangesFromXML_mergeAttrs [OF assms] obtain e where
    e: "mergeAttrs_tree e" and c: "ins_callback rt e = Some c \<or> del_callback rt e = Some c"
    by blast
  from c have "timestamp c = element_date rt e"
    by (auto simp: ins_callback_Some del_callback_Some)
  with dollar_mergeAttrs [OF e] show ?thesis
    by (simp add: element_date_def new_Date_def)
qed

text \<open>
  The insertion of \<open>merged_tree\<close> carries \<open>w:date="2024-01-15T10:30:00Z"\<close>, which parses
  to 1705314600000; the one change emitted for it has the clock, 1000, as its timestamp.
\<close>

theorem timestamp_is_the_clock_on_merged_attributes_witness:
  "mergeAttrs_tree merged_tree
   \<and> findElementsRecursive merged_tree (lit ''w:ins'') = [merged_ins]
   \<and> js_prop merged_ins (lit ''w:date'') = Some (XString (lit ''2024-01-15T10:30:00Z''))
   \<and> new_Date_of sample_runtime (lit ''2024-01-15T10:30:00Z'') = DateValue 1705314600000
   \<and> length (extractChangesFromXML sample_runtime (Some merged_tree) []) = 1
   \<and> map timestamp (extractChangesFromXML sample_runtime (Some merged_tree) []) = [DateValue 1000]"
proof -
  have m: "mergeAttrs_tree merged_tree" by code_simp
  have f: "findElementsRecursive merged_tree (lit ''w:ins'') = [merged_ins]" by code_simp
  have p: "js_prop merged_ins (lit ''w:date'') = Some (XString (lit ''2024-01-15T10:30:00Z''))"
    by code_simp
  have d: "new_Date_of sample_runtime (lit ''2024-01-15T10:30:00Z'') = DateValue 1705314600000"
    by code_simp
  have l: "length (extractChangesFromXML sample_runtime (Some merged_tree) []) = 1" by code_simp
  then obtain c where c: "extractChangesFromXML sample_runtime (Some merged_tree) [] = [c]"
    by (cases "extractChangesFromXML sample_runtime (Some merged_tree) []") auto
  then have "c \<in> set (extractChangesFromXML sample_runtime (Some merged_tree) [])" by simp
  from timestamp_is_the_clock_on_merged_attributes [OF m this]
  have "timestamp c = DateValue 1000" by (simp add: sample_runtime_def)
  with c have t: "map timestamp (extractChangesFromXML sample_runtime (Some merged_tree) []) = [DateValue 1000]"
    by simp
  from m f p d l t show ?thesis by (intro conjI)
qed

section \<open>The metadata\<close>

lemma Set_fold: "foldl Set_add acc xs = acc @ first_seen (filter (\<lambda>x. x \<notin> set acc) xs)"
proof (induction xs arbitrary: acc)
  case Nil
  then show ?case by simp
next
  case (Cons x xs)
  show ?case
  proof (cases "x \<in> set acc")
    case True
    then show ?thesis using Cons.IH [of acc] by (simp add: Set_add_def)
  next
    case False
    have "filter (\<lambda>y. y \<notin> set (acc @ [x])) xs = filter (\<lambda>y. y \<noteq> x) (filter (\<lambda>y. y \<notin> set acc) xs)"
      by (simp add: conj_commute)
    with False show ?thesis using Cons.IH [of "acc @ [x]"] by (simp add: Set_add_def)
  qed
qed

lemma new_Set_first_seen: "new_Set xs = first_seen xs"
  by (simp add: new_Set_def Set_fold)

lemma set_first_seen: "set (first_seen xs) = set xs"
  by (induction xs rule: first_seen.induct) auto

lemma distinct_first_seen: "distinct (first_seen xs)"
  by (induction xs rule: first_seen.induct) (auto simp: set_first_seen)

text \<open>
  Claim C7. In every result, \<open>metadata.authors\<close> is the list of the authors of the
  returned changes with the duplicates removed, each author where it first appears;
  it has no duplicate and holds exactly the authors of the changes. The result may come
  from the structured path or from the fallback path: the statement is about whatever
  \<open>parseDocument\<close> returns.
\<close>

theorem authors_are_the_first_seen_authors:
  assumes "fst (parseDocument env rt w) = Inr r"
  shows "authors (metadata r) = first_seen (map author (changes r))
         \<and> distinct (authors (metadata r))
         \<and> set (authors (metadata r)) = author ` set (changes r)"
proof -
  from parseDocument_Inr [OF assms]
  have "authors (metadata r) = new_Set (map author (changes r))" by blast
  then have a: "authors (metadata r) = first_seen (map author (changes r))"
    by (simp add: new_Set_first_seen)
  then show ?thesis by (simp add: distinct_first_seen set_first_seen)
qed

theorem authors_are_the_first_seen_authors_witness:
  "(\<exists>r. fst (parseDocument sample_env sample_runtime world0) = Inr r
        \<and> map author (changes r) = [lit ''Bob'', lit ''Unknown'', lit ''Unknown'']
        \<and> authors (metadata r) = first_seen (map author (changes r))
        \<and> authors (metadata r) = [lit ''Bob'', lit ''Unknown''])
   \<and> (\<exists>r. fst (parseDocument (sample_env \<lparr>loadAsync := Inl (Error [])\<rparr>) sample_runtime world0) = Inr r
        \<and> authors (metadata r) = first_seen (map author (changes r))
        \<and> authors (metadata r) = [lit ''Document Author''])"
proof -
  have e: "case fst (parseDocument sample_env sample_runtime world0) of
             Inl e \<Rightarrow> False
           | Inr r \<Rightarrow> map author (changes r) = [lit ''Bob'', lit ''Unknown'', lit ''Unknown'']
                     \<and> authors (metadata r) = [lit ''Bob'', lit ''Unknown'']"
    by code_simp
  then obtain r where r: "fst (parseDocument sample_env sample_runtime world0) = Inr r"
    and v: "map author (changes r) = [lit ''Bob'', lit ''Unknown'', lit ''Unknown'']"
      "authors (metadata r) = [lit ''Bob'', lit ''Unknown'']"
    by (cases "fst (parseDocument sample_env sample_runtime world0)") auto
  have e': "case fst (parseDocument (sample_env \<lparr>loadAsync := Inl (Error [])\<rparr>) sample_runtime world0) of
             Inl e \<Rightarrow> False
           | Inr r \<Rightarrow> authors (metadata r) = [lit ''Document Author'']"
    by code_simp
  then obtain r' where
    r': "fst (parseDocument (sample_env \<lparr>loadAsync := Inl (Error [])\<rparr>) sample_runtime world0) = Inr r'"
    and v': "authors (metadata r') = [lit ''Document Author'']"
    by (cases "fst (parseDocument (sample_env \<lparr>loadAsync := Inl (Error [])\<rparr>) sample_runtime world0)") auto
  from authors_are_the_first_seen_authors [OF r] r v
  have 1: "\<exists>r. fst (parseDocument sample_env sample_runtime world0) = Inr r
        \<and> map author (changes r) = [lit ''Bob'', lit ''Unknown'', lit ''Unknown'']
        \<and> authors (metadata r) = first_seen (map author (changes r))
        \<and> authors (metadata r) = [lit ''Bob'', lit ''Unknown'']"
    by (intro exI [of _ r]) simp
  from authors_are_the_first_seen_authors [OF r'] r' v'
  have 2: "\<exists>r. fst (parseDocument (sample_env \<lparr>loadAsync := Inl (Error [])\<rparr>) sample_runtime world0) = Inr r
        \<and> authors (metadata r) = first_seen (map author (changes r))
        \<and> authors (metadata r) = [lit ''Document Author'']"
    by (intro exI [of _ r']) simp
  from 1 2 show ?thesis by (rule conjI)
qed

section \<open>The word count\<close>

lemma trim_ends:
  assumes "trim s \<noteq> []"
  shows "\<not> is_whitespace (hd (trim s)) \<and> \<not> is_whitespace (last (trim s))"
proof -
  define u where "u = dropWhile is_whitespace s"
  define v where "v = dropWhile is_whitespace (rev u)"
  have t: "trim s = rev v" by (simp add: trim_def u_def v_def)
  with assms have v: "v \<noteq> []" by simp
  then have hv: "\<not> is_whitespace (hd v)" unfolding v_def by (rule hd_dropWhile)
  from v have u: "u \<noteq> []" by (auto simp: v_def)
  then have hu: "\<not> is_whitespace (hd u)" unfolding u_def by (rule hd_dropWhile)
  obtain p where p: "rev u = p @ v"
    unfolding v_def by (metis takeWhile_dropWhile_id)
  with v have "last v = last (rev u)" by simp
  also have "\<dots> = hd u" using u by (simp add: last_rev)
  finally have lv: "\<not> is_whitespace (last v)" using hu by simp
  from v hv lv t show ?thesis by (simp add: hd_rev last_rev)
qed

lemma whitespace_tokens_dropWhile:
  "whitespace_tokens (dropWhile is_whitespace s) = whitespace_tokens s"
  by (induction s) auto

lemma split_pieces_tokens:
  assumes "s = [] \<or> \<not> is_whitespace (last s)"
  shows "split_pieces cur s
           = (cur @ takeWhile (\<lambda>d. \<not> is_whitespace d) s)
             # whitespace_tokens (dropWhile (\<lambda>d. \<not> is_whitespace d) s)"
  using assms
proof (induction cur s rule: split_pieces.induct)
  case (1 cur)
  show ?case by simp
next
  case (2 cur c cs)
  show ?case
  proof (cases "is_whitespace c")
    case True
    define r where "r = dropWhile is_whitespace cs"
    from "2.prems" True have cs: "cs \<noteq> []" "\<not> is_whitespace (last cs)" by (auto split: if_splits)
    have "\<exists>x\<in>set cs. \<not> is_whitespace x" using cs by (metis last_in_set)
    then have r: "r \<noteq> []" unfolding r_def by simp
    obtain p where p: "cs = p @ r" unfolding r_def by (metis takeWhile_dropWhile_id)
    with r cs have lr: "\<not> is_whitespace (last r)" by simp
    have hr: "\<not> is_whitespace (hd r)" using r unfolding r_def by (rule hd_dropWhile)
    from "2.IH"(1) [OF True] lr
    have ih: "split_pieces [] r
                = takeWhile (\<lambda>d. \<not> is_whitespace d) r
                  # whitespace_tokens (dropWhile (\<lambda>d. \<not> is_whitespace d) r)"
      by (simp add: r_def)
    from r hr have tok: "whitespace_tokens r
                = takeWhile (\<lambda>d. \<not> is_whitespace d) r
                  # whitespace_tokens (dropWhile (\<lambda>d. \<not> is_whitespace d) r)"
      by (cases r) auto
    have "whitespace_tokens cs = whitespace_tokens r"
      unfolding r_def by (rule whitespace_tokens_dropWhile [symmetric])
    with True ih tok show ?thesis by (simp add: r_def)
  next
    case False
    from "2.prems" have "cs = [] \<or> \<not> is_whitespace (last cs)" by (auto split: if_splits)
    from "2.IH"(2) [OF False this] False show ?thesis by simp
  qed
qed

text \<open>Where the content is not empty, the word count is the number of its tokens.\<close>

lemma wordCount_of_nonempty_content:
  assumes "fst (parseDocument env rt w) = Inr r" "content r \<noteq> []"
  shows "wordCount (metadata r) = length (whitespace_tokens (content r))"
proof -
  from parseDocument_Inr [OF assms(1)] obtain html where
    c: "content r = html_to_text html"
    and wc: "wordCount (metadata r) = length (split_whitespace (content r))" by blast
  from c assms(2) have ne: "trim (collapse_whitespace (strip_tags html)) \<noteq> []"
    by (simp add: html_to_text_def)
  from trim_ends [OF ne] c
  have ends: "\<not> is_whitespace (hd (content r))" "\<not> is_whitespace (last (content r))"
    by (simp_all add: html_to_text_def)
  from assms(2) obtain a as where as: "content r = a # as" by (cases "content r") auto
  from ends(2) have "split_pieces [] (content r)
           = ([] @ takeWhile (\<lambda>d. \<not> is_whitespace d) (content r))
             # whitespace_tokens (dropWhile (\<lambda>d. \<not> is_whitespace d) (content r))"
    by (intro split_pieces_tokens) simp
  also have "\<dots> = whitespace_tokens (content r)"
    using ends(1) as by simp
  finally show ?thesis using wc by (simp add: split_whitespace_def)
qed

lemma changeCount_is_length:
  assumes "fst (parseDocument env rt w) = Inr r"
  shows "changeCount (metadata r) = length (changes r)"
  using parseDocument_Inr [OF assms] by blast

text \<open>
  Claim C8 at the document that mammoth converts to no text. The change count is the
  length of the change list, as the claim says. The content is the empty string, which
  has no token, but the word count is 1: \<open>''.split(/\s+/)\<close> is the array \<open>['']\<close>.
\<close>

theorem wordCount_of_empty_content:
  "(case fst (parseDocument empty_env sample_runtime world0) of
      Inl e \<Rightarrow> False
    | Inr r \<Rightarrow> content r = []
              \<and> length (whitespace_tokens (content r)) = 0
              \<and> wordCount (metadata r) = 1
              \<and> changeCount (metadata r) = length (changes r))"
  by code_simp


section \<open>Facts about the orchestrator\<close>

lemma fallback_texts_append: "fallback_texts (xs @ ys) = fallback_texts xs @ fallback_texts ys"
  by (induction xs rule: fallback_texts.induct) auto

lemma parseXMLPromise_world:
  "mammoth_runs (snd (parseXMLPromise env xml w)) = mammoth_runs w
   \<and> fallback_texts (trace (snd (parseXMLPromise env xml w))) = fallback_texts (trace w)
   \<and> fst (parseXMLPromise env xml w) = fst (parseXMLPromise env xml w')"
  by (simp add: parseXMLPromise_def emit_def fallback_texts_append split: parse_outcome.splits)

text \<open>The try block does not run mammoth and does not call the fallback extractor, and
  what it returns does not depend on the world.\<close>

lemma structured_extraction_world:
  "mammoth_runs (snd (structured_extraction env rt w)) = mammoth_runs w
   \<and> fallback_texts (trace (snd (structured_extraction env rt w))) = fallback_texts (trace w)"
proof -
  have p: "\<And>xml w0. mammoth_runs (snd (parseXMLPromise env xml w0)) = mammoth_runs w0
             \<and> fallback_texts (trace (snd (parseXMLPromise env xml w0))) = fallback_texts (trace w0)"
    using parseXMLPromise_world by blast
  have q: "\<And>xml w0 r w1. parseXMLPromise env xml w0 = (r, w1) \<Longrightarrow>
             mammoth_runs w1 = mammoth_runs w0 \<and> fallback_texts (trace w1) = fallback_texts (trace w0)"
    using p by (metis snd_conv)
  show ?thesis
    by (auto simp: structured_extraction_def Let_def emit_def fallback_texts_append
             split: sum.splits option.splits prod.splits dest!: q)
qed

lemma structured_extraction_result:
  "fst (structured_extraction env rt w) = fst (structured_extraction env rt w')"
proof -
  have p: "\<And>xml w0 w1. fst (parseXMLPromise env xml w0) = fst (parseXMLPromise env xml w1)"
    using parseXMLPromise_world by blast
  have q: "\<And>xml w0 w1 r r' v v'. parseXMLPromise env xml w0 = (r, v) \<Longrightarrow>
             parseXMLPromise env xml w1 = (r', v') \<Longrightarrow> r = r'"
    using p by (metis fst_conv)
  show ?thesis
    by (auto simp: structured_extraction_def Let_def
             split: sum.splits option.splits prod.splits dest: q)
qed

lemma getTextContent_world:
  "mammoth_runs (snd (getTextContent env w)) = Suc (mammoth_runs w)
   \<and> fallback_texts (trace (snd (getTextContent env w))) = fallback_texts (trace w)
   \<and> fst (getTextContent env w)
       = (case convertToHtml env (mammoth_runs w) of Inl e \<Rightarrow> [] | Inr html \<Rightarrow> html_to_text html)"
  by (simp add: getTextContent_def mammoth_convertToHtml_def emit_def fallback_texts_append
           split: sum.splits)

lemma fallback_of_empty_text: "parseAlternativeTrackChanges rt [] = []"
  by (simp add: parseAlternativeTrackChanges_def exec_def addedPattern_def deletedPattern_def
        modifiedPattern_def match_literal_def lit_def)

text \<open>What \<open>extractTrackChanges\<close> does in its two cases.\<close>

lemma extractTrackChanges_Inr:
  assumes "fst (structured_extraction env rt w) = Inr cs"
  shows "fst (extractTrackChanges env rt w) = cs"
    "fallback_texts (trace (snd (extractTrackChanges env rt w))) = fallback_texts (trace w)"
    "mammoth_runs (snd (extractTrackChanges env rt w)) = mammoth_runs w"
  using assms structured_extraction_world [of env rt w]
  by (auto simp: extractTrackChanges_def split: prod.splits sum.splits)

lemma extractTrackChanges_Inl:
  assumes "fst (structured_extraction env rt w) = Inl e"
  defines "t \<equiv> (case convertToHtml env (mammoth_runs w) of Inl e \<Rightarrow> [] | Inr html \<Rightarrow> html_to_text html)"
  shows "fst (extractTrackChanges env rt w) = parseAlternativeTrackChanges rt t"
    "fallback_texts (trace (snd (extractTrackChanges env rt w))) = fallback_texts (trace w) @ [t]"
proof -
  obtain w1 where s: "structured_extraction env rt w = (Inl e, w1)"
    using assms(1) by (cases "structured_extraction env rt w") auto
  define w2 where "w2 = emit (console_error (lit ''Could not extract track changes from document:'')) w1"
  obtain s' w3 where g: "getTextContent env w2 = (s', w3)" by (cases "getTextContent env w2")
  from structured_extraction_world [of env rt w] s
  have w1: "mammoth_runs w1 = mammoth_runs w" "fallback_texts (trace w1) = fallback_texts (trace w)"
    by simp_all
  then have w2: "mammoth_runs w2 = mammoth_runs w" "fallback_texts (trace w2) = fallback_texts (trace w)"
    by (simp_all add: w2_def emit_def fallback_texts_append)
  from getTextContent_world [of env w2] g w2
  have w3: "fallback_texts (trace w3) = fallback_texts (trace w)" "s' = t"
    by (simp_all add: t_def)
  have r: "extractTrackChanges env rt w
             = (if 0 < length (parseAlternativeTrackChanges rt s')
                then (parseAlternativeTrackChanges rt s', emit (fallback_call s') w3)
                else ([], emit (fallback_call s') w3))"
    using s g by (simp add: extractTrackChanges_def Let_def w2_def)
  from r w3 show "fst (extractTrackChanges env rt w) = parseAlternativeTrackChanges rt t"
    by simp
  from r w3 show "fallback_texts (trace (snd (extractTrackChanges env rt w))) = fallback_texts (trace w) @ [t]"
    by (simp add: emit_def fallback_texts_append)
qed


section \<open>When the fallback extractor runs\<close>

text \<open>
  Claim C1, as the code has it. The fallback extractor is called exactly when the
  structured extraction (the \<open>try\<close> block) throws: then it is called once, on the text
  that \<open>getTextContent\<close> returns (the plain text of the file, or the empty string when
  the conversion fails), and its result is what \<open>extractTrackChanges\<close> returns.
  When the structured extraction ends without an error, its change list is returned as
  it is, also when it is empty, and the fallback extractor is not called.
\<close>

theorem fallback_runs_exactly_when_structured_extraction_throws:
  "(case fst (structured_extraction env rt w) of
      Inl e \<Rightarrow>
        (\<exists>t. t = fst (getTextContent env w)
             \<and> fallback_texts (trace (snd (extractTrackChanges env rt w))) = fallback_texts (trace w) @ [t]
             \<and> fst (extractTrackChanges env rt w) = parseAlternativeTrackChanges rt t)
    | Inr cs \<Rightarrow>
        fallback_texts (trace (snd (extractTrackChanges env rt w))) = fallback_texts (trace w)
        \<and> fst (extractTrackChanges env rt w) = cs)"
proof (cases "fst (structured_extraction env rt w)")
  case (Inl e)
  from extractTrackChanges_Inl [OF Inl] getTextContent_world [of env w] Inl show ?thesis by auto
next
  case (Inr cs)
  from extractTrackChanges_Inr [OF Inr] Inr show ?thesis by simp
qed

theorem fallback_runs_exactly_when_structured_extraction_throws_witness:
  "fst (structured_extraction no_changes_env sample_runtime world0) = Inr []
   \<and> fallback_texts (trace (snd (extractTrackChanges no_changes_env sample_runtime world0))) = []
   \<and> fst (extractTrackChanges no_changes_env sample_runtime world0) = []
   \<and> fst (structured_extraction broken_env sample_runtime world0) = Inl (Error (lit ''not a zip file''))
   \<and> (\<exists>t. fallback_texts (trace (snd (extractTrackChanges broken_env sample_runtime world0))) = [t]
          \<and> fst (extractTrackChanges broken_env sample_runtime world0)
               = parseAlternativeTrackChanges sample_runtime t)"
proof -
  have a: "fst (structured_extraction no_changes_env sample_runtime world0) = Inr []"
    by code_simp
  have b: "fst (structured_extraction broken_env sample_runtime world0) = Inl (Error (lit ''not a zip file''))"
    by code_simp
  have z: "fallback_texts (trace world0) = []" by (simp add: world0_def)
  from fallback_runs_exactly_when_structured_extraction_throws
         [where env = no_changes_env and rt = sample_runtime and w = world0] a z
  have 1: "fallback_texts (trace (snd (extractTrackChanges no_changes_env sample_runtime world0))) = []
           \<and> fst (extractTrackChanges no_changes_env sample_runtime world0) = []"
    by simp
  from fallback_runs_exactly_when_structured_extraction_throws
         [where env = broken_env and rt = sample_runtime and w = world0] b z
  have 2: "\<exists>t. fallback_texts (trace (snd (extractTrackChanges broken_env sample_runtime world0))) = [t]
          \<and> fst (extractTrackChanges broken_env sample_runtime world0)
               = parseAlternativeTrackChanges sample_runtime t"
    by simp
  from a 1 b 2 show ?thesis by simp
qed

text \<open>
  Claim C1 as the specification states it fails: the structured extraction of this file
  ends without an error and with no change, its plain text holds \<open>[Added: x]\<close>, which
  the fallback extractor would report, and \<open>parseDocument\<close> returns no change without
  calling the fallback extractor.
\<close>

theorem empty_structured_result_skips_the_fallback:
  "fst (structured_extraction no_changes_env sample_runtime world0) = Inr []
   \<and> (case parseDocument no_changes_env sample_runtime world0 of
         (Inl e, w') \<Rightarrow> False
       | (Inr r, w') \<Rightarrow>
           content r = lit ''fee [Added: x]''
           \<and> changes r = []
           \<and> fallback_texts (trace w') = []
           \<and> length (parseAlternativeTrackChanges sample_runtime (content r)) = 1)"
  by code_simp

section \<open>Which failures reach the caller\<close>

lemma parseDocument_cases:
  "(case convertToHtml env (mammoth_runs w) of
      Inl e \<Rightarrow>
        fst (parseDocument env rt w)
          = Inl (Error (lit ''Failed to parse document. Please ensure it's a valid .docx file.''))
    | Inr html \<Rightarrow>
        (\<exists>r. fst (parseDocument env rt w) = Inr r \<and> content r = html_to_text html
              \<and> changes r = fst (extractTrackChanges env rt (w\<lparr>mammoth_runs := Suc (mammoth_runs w)\<rparr>))))"
  by (simp add: parseDocument_def mammoth_convertToHtml_def Let_def split: sum.splits prod.splits)

text \<open>
  Claim C3. \<open>parseDocument\<close> throws if and only if the first plain-text conversion of the
  file fails, and then it throws the one error \<open>Failed to parse document\<close>. Whatever
  happens when the archive is opened, when an entry is read, when the XML is parsed and
  when the changes and comments are extracted, the call returns a result object whose
  content is the converted text.
\<close>

theorem parseDocument_throws_iff_first_conversion_fails:
  "((\<exists>e. fst (parseDocument env rt w) = Inl e) \<longleftrightarrow> (\<exists>e. convertToHtml env (mammoth_runs w) = Inl e))
   \<and> ((\<exists>e. fst (parseDocument env rt w) = Inl e) \<longrightarrow>
        fst (parseDocument env rt w)
          = Inl (Error (lit ''Failed to parse document. Please ensure it's a valid .docx file.'')))
   \<and> (\<forall>html. convertToHtml env (mammoth_runs w) = Inr html \<longrightarrow>
         (\<exists>r. fst (parseDocument env rt w) = Inr r \<and> content r = html_to_text html))"
  using parseDocument_cases [where env = env and w = w and rt = rt]
  by (cases "convertToHtml env (mammoth_runs w)") auto

theorem parseDocument_throws_iff_first_conversion_fails_witness:
  "loadAsync broken_env = Inl (Error (lit ''not a zip file''))
   \<and> convertToHtml broken_env (mammoth_runs world0) = Inr (lit ''<p>fee [Added: x]</p>'')
   \<and> (\<exists>r. fst (parseDocument broken_env sample_runtime world0) = Inr r
          \<and> content r = html_to_text (lit ''<p>fee [Added: x]</p>''))
   \<and> convertToHtml (sample_env \<lparr>convertToHtml := (\<lambda>k. Inl (Error []))\<rparr>) (mammoth_runs world0)
        = Inl (Error [])
   \<and> fst (parseDocument (sample_env \<lparr>convertToHtml := (\<lambda>k. Inl (Error []))\<rparr>) sample_runtime world0)
        = Inl (Error (lit ''Failed to parse document. Please ensure it's a valid .docx file.''))"
proof -
  have a: "loadAsync broken_env = Inl (Error (lit ''not a zip file''))"
    by (simp add: broken_env_def)
  have b: "convertToHtml broken_env (mammoth_runs world0) = Inr (lit ''<p>fee [Added: x]</p>'')"
    by (simp add: broken_env_def world0_def)
  have c: "convertToHtml (sample_env \<lparr>convertToHtml := (\<lambda>k. Inl (Error []))\<rparr>) (mammoth_runs world0)
        = Inl (Error [])"
    by simp
  from parseDocument_throws_iff_first_conversion_fails [of broken_env sample_runtime world0] b
  have 1: "\<exists>r. fst (parseDocument broken_env sample_runtime world0) = Inr r
          \<and> content r = html_to_text (lit ''<p>fee [Added: x]</p>'')"
    by blast
  from parseDocument_throws_iff_first_conversion_fails
         [of "sample_env \<lparr>convertToHtml := (\<lambda>k. Inl (Error []))\<rparr>" sample_runtime world0] c
  have 2: "fst (parseDocument (sample_env \<lparr>convertToHtml := (\<lambda>k. Inl (Error []))\<rparr>) sample_runtime world0)
        = Inl (Error (lit ''Failed to parse document. Please ensure it's a valid .docx file.''))"
    by blast
  from a b 1 c 2 show ?thesis by (intro conjI)
qed

text \<open>
  Claim C10. When the first plain-text conversion succeeds, \<open>parseDocument\<close> returns a
  result. If moreover the structured extraction throws and the second conversion, the
  one of \<open>getTextContent\<close>, fails, then \<open>getTextContent\<close> returns the empty string, the
  fallback extractor is called once, on the empty string, and the result holds no change.
  (Whether the structured extraction throws does not depend on the world it starts in.)
\<close>

theorem rejection_is_unreachable_after_the_first_conversion:
  assumes "convertToHtml env (mammoth_runs w) = Inr html"
  shows "(\<exists>r. fst (parseDocument env rt w) = Inr r)
         \<and> ((\<exists>e. fst (structured_extraction env rt w) = Inl e)
              \<and> (\<exists>e. convertToHtml env (Suc (mammoth_runs w)) = Inl e)
            \<longrightarrow> fst (getTextContent env (w\<lparr>mammoth_runs := Suc (mammoth_runs w)\<rparr>)) = []
                \<and> (\<exists>r w'. parseDocument env rt w = (Inr r, w') \<and> changes r = []
                      \<and> fallback_texts (trace w') = fallback_texts (trace w) @ [[]]))"
proof (intro conjI impI)
  from parseDocument_cases [where env = env and w = w and rt = rt] assms
  show "\<exists>r. fst (parseDocument env rt w) = Inr r" by auto
next
  assume a: "(\<exists>e. fst (structured_extraction env rt w) = Inl e)
              \<and> (\<exists>e. convertToHtml env (Suc (mammoth_runs w)) = Inl e)"
  then obtain e2 where e2: "convertToHtml env (Suc (mammoth_runs w)) = Inl e2" by blast
  then show "fst (getTextContent env (w\<lparr>mammoth_runs := Suc (mammoth_runs w)\<rparr>)) = []"
    using getTextContent_world [of env "w\<lparr>mammoth_runs := Suc (mammoth_runs w)\<rparr>"] by simp
next
  assume a: "(\<exists>e. fst (structured_extraction env rt w) = Inl e)
              \<and> (\<exists>e. convertToHtml env (Suc (mammoth_runs w)) = Inl e)"
  define w1 where "w1 = w\<lparr>mammoth_runs := Suc (mammoth_runs w)\<rparr>"
  from a obtain e e2 where e: "fst (structured_extraction env rt w) = Inl e"
    and e2: "convertToHtml env (Suc (mammoth_runs w)) = Inl e2" by blast
  from e structured_extraction_result [of env rt w1 w]
  have e1: "fst (structured_extraction env rt w1) = Inl e" by simp
  have m: "mammoth_runs w1 = Suc (mammoth_runs w)" "trace w1 = trace w" by (simp_all add: w1_def)
  from extractTrackChanges_Inl [OF e1] e2 m
  have x: "fst (extractTrackChanges env rt w1) = []"
    "fallback_texts (trace (snd (extractTrackChanges env rt w1))) = fallback_texts (trace w) @ [[]]"
    by (simp_all add: fallback_of_empty_text)
  obtain cs w2 where p: "extractTrackChanges env rt w1 = (cs, w2)"
    by (cases "extractTrackChanges env rt w1")
  with x have cs: "cs = []" "fallback_texts (trace w2) = fallback_texts (trace w) @ [[]]" by simp_all
  have "\<exists>r. parseDocument env rt w = (Inr r, w2) \<and> changes r = []"
    using assms p cs(1)
    by (simp add: parseDocument_def mammoth_convertToHtml_def Let_def w1_def)
  with cs(2) show "\<exists>r w'. parseDocument env rt w = (Inr r, w') \<and> changes r = []
                      \<and> fallback_texts (trace w') = fallback_texts (trace w) @ [[]]"
    by blast
qed

theorem rejection_is_unreachable_after_the_first_conversion_witness:
  "convertToHtml broken_env (mammoth_runs world0) = Inr (lit ''<p>fee [Added: x]</p>'')
   \<and> fst (structured_extraction broken_env sample_runtime world0) = Inl (Error (lit ''not a zip file''))
   \<and> convertToHtml broken_env (Suc (mammoth_runs world0)) = Inl (Error (lit ''mammoth failed''))
   \<and> fst (getTextContent broken_env (world0\<lparr>mammoth_runs := Suc (mammoth_runs world0)\<rparr>)) = []
   \<and> (\<exists>r w'. parseDocument broken_env sample_runtime world0 = (Inr r, w') \<and> changes r = []
         \<and> fallback_texts (trace w') = [[]])"
proof -
  have a: "convertToHtml broken_env (mammoth_runs world0) = Inr (lit ''<p>fee [Added: x]</p>'')"
    by (simp add: broken_env_def world0_def)
  have b: "fst (structured_extraction broken_env sample_runtime world0) = Inl (Error (lit ''not a zip file''))"
    by code_simp
  have c: "convertToHtml broken_env (Suc (mammoth_runs world0)) = Inl (Error (lit ''mammoth failed''))"
    by (simp add: broken_env_def world0_def)
  have z: "fallback_texts (trace world0) = []" by (simp add: world0_def)
  from rejection_is_unreachable_after_the_first_conversion [OF a, of sample_runtime] b c z
  have "fst (getTextContent broken_env (world0\<lparr>mammoth_runs := Suc (mammoth_runs world0)\<rparr>)) = []
        \<and> (\<exists>r w'. parseDocument broken_env sample_runtime world0 = (Inr r, w') \<and> changes r = []
              \<and> fallback_texts (trace w') = [[]])"
    by simp
  with a b c show ?thesis by (intro conjI) simp_all
qed


section \<open>Which names the structured extractors match\<close>

lemma findElementsRecursive_no_key:
  "\<not> has_key t k \<Longrightarrow> findElementsRecursive t k = []"
proof (induction t k rule: findElementsRecursive.induct)
  case (1 s tagName)
  show ?case by simp
next
  case (2 xs tagName)
  then show ?case by (auto simp: list_ex_iff)
next
  case (3 ck at ch tagName)
  from "3.prems" have a: "map_of ch tagName = None"
    by (simp add: map_of_eq_None_iff)
  from "3.prems" have "\<And>a. at = Some a \<Longrightarrow> map_of a tagName = None"
    by (auto simp: map_of_eq_None_iff)
  then have b: "(case at of None \<Rightarrow> [] | Some a \<Rightarrow>
           (case map_of a tagName of None \<Rightarrow> [] | Some s \<Rightarrow> if s \<noteq> [] then [XString s] else [])) = []"
    by (cases at) simp_all
  from "3.prems" "3.IH" have c: "\<forall>kv\<in>set ch. findElementsRecursive (snd kv) tagName = []"
    by (auto simp: list_ex_iff)
  from a b c show ?case by simp
qed

lemma enumerate_mem:
  assumes "x \<in> set xs"
  shows "\<exists>i. (i, x) \<in> set (enumerate 0 xs)"
proof -
  from assms obtain i where "i < length xs" "xs ! i = x" by (auto simp: in_set_conv_nth)
  then have "(i, x) \<in> set (enumerate 0 xs)" by (simp add: in_set_enumerate_eq)
  then show ?thesis ..
qed

text \<open>
  The DOM variant matches both forms of the names. Its selector passes find every
  element whose local name is \<open>ins\<close> or \<open>del\<close>, with or without a prefix, and read
  \<open>w:author\<close> and \<open>w:date\<close>, or \<open>author\<close> and \<open>date\<close> when those are missing or empty.
\<close>

lemma dom_selector_passes_match_both_forms:
  "(el \<in> set (elements xmlDoc) \<and> localName el = lit ''ins'' \<and> trim (extractTextFromElement_dom el) \<noteq> []
      \<longrightarrow> (\<exists>c\<in>set (extractChangesFromXML_dom rt xmlDoc cs).
             type c = Added \<and> text' c = trim (extractTextFromElement_dom el)
             \<and> author c = or_Unknown (or_else (getAttribute el (lit ''w:author''))
                                               (getAttribute el (lit ''author'')))
             \<and> timestamp c = date_of rt (or_else (getAttribute el (lit ''w:date''))
                                                  (getAttribute el (lit ''date'')))))
   \<and> (el \<in> set (elements xmlDoc) \<and> localName el = lit ''del'' \<and> trim (extractTextFromElement_dom el) \<noteq> []
      \<longrightarrow> (\<exists>c\<in>set (extractChangesFromXML_dom rt xmlDoc cs).
             type c = Deleted \<and> originalText c = Some (trim (extractTextFromElement_dom el))
             \<and> author c = or_Unknown (or_else (getAttribute el (lit ''w:author''))
                                               (getAttribute el (lit ''author'')))
             \<and> timestamp c = date_of rt (or_else (getAttribute el (lit ''w:date''))
                                                  (getAttribute el (lit ''date'')))))"
proof (intro conjI impI)
  assume a: "el \<in> set (elements xmlDoc) \<and> localName el = lit ''ins''
             \<and> trim (extractTextFromElement_dom el) \<noteq> []"
  then have "el \<in> set (document_querySelectorAll xmlDoc (TypeSelectors [lit ''ins'', lit ''w:ins'']))"
    by (simp add: document_querySelectorAll_def)
  from enumerate_mem [OF this] obtain i where
    i: "(i, el) \<in> set (enumerate 0 (document_querySelectorAll xmlDoc (TypeSelectors [lit ''ins'', lit ''w:ins''])))"
    by blast
  from a obtain c where c: "insertion_callback rt (i, el) = Some c"
    by (auto simp: insertion_callback_def Let_def)
  from i c have "c \<in> set (extractChangesFromXML_dom rt xmlDoc cs)"
    by (auto simp: extractChangesFromXML_dom_def Let_def set_map_filter)
  with insertion_callback_Some [OF c]
  show "\<exists>c\<in>set (extractChangesFromXML_dom rt xmlDoc cs).
             type c = Added \<and> text' c = trim (extractTextFromElement_dom el)
             \<and> author c = or_Unknown (or_else (getAttribute el (lit ''w:author''))
                                               (getAttribute el (lit ''author'')))
             \<and> timestamp c = date_of rt (or_else (getAttribute el (lit ''w:date''))
                                                  (getAttribute el (lit ''date'')))"
    by (intro bexI [of _ c]) simp_all
next
  assume a: "el \<in> set (elements xmlDoc) \<and> localName el = lit ''del''
             \<and> trim (extractTextFromElement_dom el) \<noteq> []"
  then have "el \<in> set (document_querySelectorAll xmlDoc (TypeSelectors [lit ''del'', lit ''w:del'']))"
    by (simp add: document_querySelectorAll_def)
  from enumerate_mem [OF this] obtain i where
    i: "(i, el) \<in> set (enumerate 0 (document_querySelectorAll xmlDoc (TypeSelectors [lit ''del'', lit ''w:del''])))"
    by blast
  from a obtain c where c: "deletion_callback rt (i, el) = Some c"
    by (auto simp: deletion_callback_def Let_def)
  from i c have "c \<in> set (extractChangesFromXML_dom rt xmlDoc cs)"
    by (auto simp: extractChangesFromXML_dom_def Let_def set_map_filter)
  with deletion_callback_Some [OF c]
  show "\<exists>c\<in>set (extractChangesFromXML_dom rt xmlDoc cs).
             type c = Deleted \<and> originalText c = Some (trim (extractTextFromElement_dom el))
             \<and> author c = or_Unknown (or_else (getAttribute el (lit ''w:author''))
                                               (getAttribute el (lit ''author'')))
             \<and> timestamp c = date_of rt (or_else (getAttribute el (lit ''w:date''))
                                                  (getAttribute el (lit ''date'')))"
    by (intro bexI [of _ c]) simp_all
qed

text \<open>
  Claim C2 on \<open>docxParser.ts\<close>. The claim has the author read whether the attribute is
  written \<open>w:author\<close> or \<open>author\<close>, and an insertion or deletion recognized whether it is
  written \<open>w:ins\<close>, \<open>w:del\<close> or \<open>ins\<close>, \<open>del\<close>. The xml2js extractor reads the author from
  \<open>element.$\<close>, which the parser of \<open>parseXMLPromise\<close> never builds: on every tree of
  that parser, every emitted change has the author \<open>Unknown\<close>, whatever attributes
  the element carries. And it looks elements up under the keys \<open>w:ins\<close> and \<open>w:del\<close>
  only: a tree with no property of either name yields no change, whatever \<open>ins\<close> and
  \<open>del\<close> elements it holds.
\<close>

theorem attributes_and_unprefixed_elements_are_not_matched:
  "(mergeAttrs_tree x \<and> c \<in> set (extractChangesFromXML rt (Some x) [])
      \<longrightarrow> author c = lit ''Unknown'')
   \<and> (js_prop x (lit ''w:document'') = Some document
      \<and> \<not> has_key document (lit ''w:ins'') \<and> \<not> has_key document (lit ''w:del'')
      \<longrightarrow> extractChangesFromXML rt (Some x) cs = cs)"
proof (intro conjI impI)
  assume a: "mergeAttrs_tree x \<and> c \<in> set (extractChangesFromXML rt (Some x) [])"
  then obtain e where
    e: "mergeAttrs_tree e" and c: "ins_callback rt e = Some c \<or> del_callback rt e = Some c"
    using extractChangesFromXML_mergeAttrs [of x c rt] by blast
  from c have "author c = element_author e"
    by (auto simp: ins_callback_Some del_callback_Some)
  with dollar_mergeAttrs [OF e] show "author c = lit ''Unknown''"
    by (simp add: element_author_def)
next
  assume a: "js_prop x (lit ''w:document'') = Some document
      \<and> \<not> has_key document (lit ''w:ins'') \<and> \<not> has_key document (lit ''w:del'')"
  then have "findElementsRecursive document (lit ''w:ins'') = []"
    "findElementsRecursive document (lit ''w:del'') = []"
    by (simp_all add: findElementsRecursive_no_key)
  with a show "extractChangesFromXML rt (Some x) cs = cs"
    by (simp add: extractChangesFromXML_def)
qed

text \<open>
  The insertion of \<open>merged_tree\<close> carries \<open>w:author="Alice"\<close>; the one change emitted for
  it has the author \<open>Unknown\<close>. The insertion of \<open>merged_plain_tree\<close> is written \<open>ins\<close>,
  and no change is emitted for it.
\<close>

theorem attributes_and_unprefixed_elements_are_not_matched_witness:
  "mergeAttrs_tree merged_tree
   \<and> findElementsRecursive merged_tree (lit ''w:ins'') = [merged_ins]
   \<and> js_prop merged_ins (lit ''w:author'') = Some (XString (lit ''Alice''))
   \<and> length (extractChangesFromXML sample_runtime (Some merged_tree) []) = 1
   \<and> map author (extractChangesFromXML sample_runtime (Some merged_tree) []) = [lit ''Unknown'']
   \<and> mergeAttrs_tree merged_plain_tree
   \<and> has_key merged_plain_tree (lit ''ins'')
   \<and> extractChangesFromXML sample_runtime (Some merged_plain_tree) [] = []"
proof -
  define document where "document = obj [(''w:body'', obj
       [(''ins'', obj ([(''author'', XString (lit ''Alice'')),
                        (''date'', XString (lit ''2024-01-15T10:30:00Z''))] @ run_of ''hello''))])]"
  note inst = attributes_and_unprefixed_elements_are_not_matched
  have m: "mergeAttrs_tree merged_tree" by code_simp
  have f: "findElementsRecursive merged_tree (lit ''w:ins'') = [merged_ins]" by code_simp
  have p: "js_prop merged_ins (lit ''w:author'') = Some (XString (lit ''Alice''))" by code_simp
  have l: "length (extractChangesFromXML sample_runtime (Some merged_tree) []) = 1" by code_simp
  then obtain c where c: "extractChangesFromXML sample_runtime (Some merged_tree) [] = [c]"
    by (cases "extractChangesFromXML sample_runtime (Some merged_tree) []") auto
  then have "c \<in> set (extractChangesFromXML sample_runtime (Some merged_tree) [])" by simp
  with inst [where x = merged_tree and c = c and rt = sample_runtime] m
  have "author c = lit ''Unknown''" by simp
  with c have a: "map author (extractChangesFromXML sample_runtime (Some merged_tree) []) = [lit ''Unknown'']"
    by simp
  have m': "mergeAttrs_tree merged_plain_tree" by code_simp
  have k: "has_key merged_plain_tree (lit ''ins'')" by code_simp
  have d: "js_prop merged_plain_tree (lit ''w:document'') = Some document"
    by (simp add: merged_plain_tree_def document_def obj_def lit_def)
  have n: "\<not> has_key document (lit ''w:ins'')" "\<not> has_key document (lit ''w:del'')"
    unfolding document_def by code_simp+
  from inst [where x = merged_plain_tree and document = document and rt = sample_runtime and cs = "[]"] d n
  have e: "extractChangesFromXML sample_runtime (Some merged_plain_tree) [] = []" by simp
  from m f p l a m' k e show ?thesis by (intro conjI)
qed


end
